theory Spec2Isabelle
  imports Complex_Main
begin

section \<open>Data model\<close>

text \<open>
  The program is \<^verbatim>\<open>scripts/run_strategy.py\<close>. A pandas DataFrame is a list of rows.
  Prices are float64 columns in the source; a float64 value is modelled as the real
  number it denotes, the type the specification gives prices. The rolling means are
  computed by a kernel that is a parameter, the difference and the product of the
  P&L in the reals. A missing value (NaN/NaT) is \<open>None\<close>.

  A value of the \<^verbatim>\<open>date\<close> column is a pandas Timestamp at midnight; the program reads
  only its fields \<^verbatim>\<open>year\<close>, \<^verbatim>\<open>month\<close> and \<^verbatim>\<open>day\<close>. The simulator is given a
  validated series: no date is NaT, no price and no signal is NaN.
\<close>

record date =
  year :: int
  month :: int
  day :: int

text \<open>One row of the frame returned by \<^verbatim>\<open>load_data\<close> (columns \<^verbatim>\<open>REQUIRED_COLS\<close>);
  the column \<^verbatim>\<open>open\<close> is the field \<open>opn\<close>.\<close>

record bar =
  date :: date
  opn :: real
  high :: real
  low :: real
  close :: real
  volume :: "real option"

text \<open>One row of the frame returned by \<^verbatim>\<open>compute_sma_signals\<close>: the bar with the columns
  \<^verbatim>\<open>sma_{fast}\<close>, \<^verbatim>\<open>sma_{slow}\<close> (NaN is \<open>None\<close>) and \<^verbatim>\<open>signal\<close>.\<close>

record sigbar = bar +
  sma_fast :: "real option"
  sma_slow :: "real option"
  signal :: int

section \<open>Signal generator\<close>

text \<open>
  The float64 arithmetic of the rolling-mean kernel belongs to pandas, not to the
  repository, and its rounding is not that of the reals; the kernel is a parameter:
  \<open>rm w xs\<close> is the float64 value it yields at the last row of a column \<open>xs\<close> of
  at least \<open>w\<close> rows, for the window of the last \<open>w\<close> rows. (The kernel slides
  a compensated sum along the column, so the value depends on the rows before the
  window too.) A float64 value is modelled as the real number it denotes: the closes
  are finite and so are their means.
\<close>

type_synonym mean_kernel = "nat \<Rightarrow> real list \<Rightarrow> real"

text \<open>The kernel in exact arithmetic: the sum of the last \<open>w\<close> rows divided by \<open>w\<close>.\<close>

definition exact_mean :: mean_kernel where
  "exact_mean w xs = sum_list (drop (length xs - w) xs) / real w"

text \<open>
  \<^verbatim>\<open>Series.rolling(w).mean()\<close>: a trailing window of \<open>w\<close> rows with
  \<^verbatim>\<open>min_periods = w\<close>, so the value at position \<open>i\<close> is NaN until \<open>w\<close> rows are
  available (and everywhere for \<open>w = 0\<close>, where the window is empty).
\<close>

definition rolling_mean_at :: "mean_kernel \<Rightarrow> nat \<Rightarrow> real list \<Rightarrow> nat \<Rightarrow> real option" where
  "rolling_mean_at rm w xs i =
     (if 0 < w \<and> w \<le> i + 1 then Some (rm w (take (i + 1) xs)) else None)"

definition rolling_mean :: "mean_kernel \<Rightarrow> nat \<Rightarrow> real list \<Rightarrow> real option list" where
  "rolling_mean rm w xs = map (rolling_mean_at rm w xs) [0..<length xs]"

text \<open>The comparison \<^verbatim>\<open>a > b\<close> of two float columns: False as soon as one side is NaN.\<close>

fun gt_nan :: "real option \<Rightarrow> real option \<Rightarrow> bool" where
  "gt_nan (Some a) (Some b) = (b < a)"
| "gt_nan _ _ = False"

text \<open>\<^verbatim>\<open>.astype(int)\<close> on a boolean column.\<close>

definition astype_int :: "bool \<Rightarrow> int" where
  "astype_int b = (if b then 1 else 0)"

definition with_signal :: "bar \<Rightarrow> real option \<Rightarrow> real option \<Rightarrow> sigbar" where
  "with_signal b f s =
     bar.extend b \<lparr>sma_fast = f, sma_slow = s, signal = astype_int (gt_nan f s)\<rparr>"

definition compute_sma_signals :: "mean_kernel \<Rightarrow> bar list \<Rightarrow> nat \<Rightarrow> nat \<Rightarrow> sigbar list" where
  "compute_sma_signals rm df fast slow =
     (let closes = map close df;
          fs = rolling_mean rm fast closes;
          ss = rolling_mean rm slow closes
      in map (\<lambda>i. with_signal (df ! i) (fs ! i) (ss ! i)) [0..<length df])"

section \<open>Timestamps\<close>

text \<open>Exceptions are values; a function that can raise returns \<open>error + 'a\<close>.
  \<open>TzError\<close> stands for the exceptions of a failed localization (unknown zone,
  nonexistent or ambiguous wall-clock time), \<open>Unmodelled\<close> for a conversion of a
  value the simulator never produces.\<close>

datatype error = ValueError | TypeError | IndexError | KeyError | TzError | Unmodelled

definition bnd :: "error + 'a \<Rightarrow> ('a \<Rightarrow> error + 'b) \<Rightarrow> error + 'b" where
  "bnd r f = (case r of Inl e \<Rightarrow> Inl e | Inr x \<Rightarrow> f x)"

text \<open>
  A pandas Timestamp as the program builds it: a calendar date, hour and minute (seconds
  are never set and stay 0) and the zone it is localized to, \<open>None\<close> for a naive value.
\<close>

record timestamp =
  ts_year :: int
  ts_month :: int
  ts_day :: int
  ts_hour :: int
  ts_minute :: int
  ts_tz :: "string option"

text \<open>
  \<^verbatim>\<open>pd.Timestamp(year=y, month=m, day=d, hour=hh, minute=mm)\<close> raises ValueError for an
  hour outside 0..23 or a minute outside 0..59. Year, month and day are always read
  from an existing Timestamp here, so they form a calendar date and their check
  always passes; it is not modelled.
\<close>

definition Timestamp :: "int \<Rightarrow> int \<Rightarrow> int \<Rightarrow> int \<Rightarrow> int \<Rightarrow> error + timestamp" where
  "Timestamp y m d hh mm =
     (if 0 \<le> hh \<and> hh < 24 \<and> 0 \<le> mm \<and> mm < 60
      then Inr \<lparr>ts_year = y, ts_month = m, ts_day = d, ts_hour = hh, ts_minute = mm,
                ts_tz = None\<rparr>
      else Inl ValueError)"

text \<open>
  The time-zone database belongs to pandas, not to the repository; it is a parameter:
  \<open>db z t\<close> is \<open>Some off\<close> when zone name \<open>z\<close> is known and the wall-clock time
  \<open>t\<close> exists in it without ambiguity, \<open>off\<close> being the offset of the zone from UTC
  at that time, in minutes; it is \<open>None\<close> otherwise. \<^verbatim>\<open>t.tz_localize(z)\<close> succeeds on
  a naive \<open>t\<close> in the first case and raises in the second. On a value that is
  already localized \<^verbatim>\<open>tz_localize\<close> raises TypeError.
\<close>

type_synonym tzdb = "string \<Rightarrow> timestamp \<Rightarrow> int option"

definition tz_localize :: "tzdb \<Rightarrow> timestamp \<Rightarrow> string \<Rightarrow> error + timestamp" where
  "tz_localize db t z =
     (if ts_tz t \<noteq> None then Inl TypeError
      else if db z t \<noteq> None then Inr (t\<lparr>ts_tz := Some z\<rparr>)
      else Inl TzError)"

text \<open>\<^verbatim>\<open>t.tz_localize(None)\<close>: drop the zone, keep the wall-clock time.\<close>

definition tz_localize_None :: "timestamp \<Rightarrow> timestamp" where
  "tz_localize_None t = t\<lparr>ts_tz := None\<rparr>"

text \<open>\<^verbatim>\<open>_make_dt\<close>: the constructor is outside the \<^verbatim>\<open>try\<close>, the localization inside.\<close>

definition make_dt :: "tzdb \<Rightarrow> date \<Rightarrow> int \<Rightarrow> int \<Rightarrow> string \<Rightarrow> error + timestamp" where
  "make_dt db date_val hh mm tzname =
     bnd (Timestamp (year date_val) (month date_val) (day date_val) hh mm)
       (\<lambda>ts. case tz_localize db ts tzname of
                Inr t \<Rightarrow> Inr t
              | Inl _ \<Rightarrow> Inr ts)"

subsection \<open>Differences of timestamps\<close>

text \<open>The proleptic Gregorian day number of a date (1 for 0001-01-01).\<close>

definition is_leap :: "int \<Rightarrow> bool" where
  "is_leap y = (y mod 4 = 0 \<and> (y mod 100 \<noteq> 0 \<or> y mod 400 = 0))"

definition days_before_year :: "int \<Rightarrow> int" where
  "days_before_year y = (y - 1) * 365 + (y - 1) div 4 - (y - 1) div 100 + (y - 1) div 400"

definition days_before_month :: "int \<Rightarrow> int \<Rightarrow> int" where
  "days_before_month y m =
     [0, 31, 59, 90, 120, 151, 181, 212, 243, 273, 304, 334] ! nat (m - 1)
       + (if 2 < m \<and> is_leap y then 1 else 0)"

definition to_ordinal :: "int \<Rightarrow> int \<Rightarrow> int \<Rightarrow> int" where
  "to_ordinal y m d = days_before_year y + days_before_month y m + d"

definition ts_ordinal :: "timestamp \<Rightarrow> int" where
  "ts_ordinal t = to_ordinal (ts_year t) (ts_month t) (ts_day t)"

definition date_ordinal :: "date \<Rightarrow> int" where
  "date_ordinal d = to_ordinal (year d) (month d) (day d)"

definition ts_minutes :: "timestamp \<Rightarrow> int" where
  "ts_minutes t = ts_ordinal t * 1440 + ts_hour t * 60 + ts_minute t"

text \<open>The instant of a timestamp in minutes: of a naive timestamp its wall-clock time,
  of a localized one its wall-clock time less the offset of its zone at that time. (A
  localized timestamp comes from \<^verbatim>\<open>tz_localize\<close>, so the database has its offset.)\<close>

definition utc_minutes :: "tzdb \<Rightarrow> timestamp \<Rightarrow> error + int" where
  "utc_minutes db t =
     (case ts_tz t of
        None \<Rightarrow> Inr (ts_minutes t)
      | Some z \<Rightarrow>
          (case db z (tz_localize_None t) of
             Some off \<Rightarrow> Inr (ts_minutes t - off)
           | None \<Rightarrow> Inl Unmodelled))"

text \<open>\<^verbatim>\<open>a - b\<close> on two Timestamps, in minutes: the difference of the wall-clock times
  of two naive operands, the difference of the instants of two localized operands,
  TypeError for one naive and one localized operand.\<close>

definition ts_sub :: "tzdb \<Rightarrow> timestamp \<Rightarrow> timestamp \<Rightarrow> error + int" where
  "ts_sub db a b =
     (if (ts_tz a = None) \<noteq> (ts_tz b = None) then Inl TypeError
      else bnd (utc_minutes db a) (\<lambda>ma. bnd (utc_minutes db b) (\<lambda>mb. Inr (ma - mb))))"

text \<open>\<^verbatim>\<open>.days\<close> of a Timedelta of so many minutes: the whole days, rounded towards
  minus infinity.\<close>

definition timedelta_days :: "int \<Rightarrow> int" where
  "timedelta_days m = m div 1440"

subsection \<open>Formatting\<close>

fun digits :: "nat \<Rightarrow> string" where
  "digits n =
     (if n < 10 then [''0123456789'' ! n]
      else digits (n div 10) @ [''0123456789'' ! (n mod 10)])"

declare digits.simps [simp del]

text \<open>A number in decimal, zero-padded to the width \<open>w\<close>: the conversion \<^verbatim>\<open>%Y\<close> pads
  to four, the conversions \<^verbatim>\<open>%m\<close>, \<^verbatim>\<open>%d\<close>, \<^verbatim>\<open>%H\<close>, \<^verbatim>\<open>%M\<close> to two.\<close>

definition zpad :: "nat \<Rightarrow> int \<Rightarrow> string" where
  "zpad w n = replicate (w - length (digits (nat n))) CHR ''0'' @ digits (nat n)"

text \<open>\<^verbatim>\<open>strftime("%Y-%m-%d %H:%M:%S")\<close>; the format has no zone directive.\<close>

definition strftime :: "timestamp \<Rightarrow> string" where
  "strftime t =
     zpad 4 (ts_year t) @ ''-'' @ zpad 2 (ts_month t) @ ''-'' @ zpad 2 (ts_day t)
       @ '' '' @ zpad 2 (ts_hour t) @ '':'' @ zpad 2 (ts_minute t) @ '':00''"

section \<open>Order simulator\<close>

text \<open>A dynamically typed value of a dict or of a frame cell.\<close>

datatype cell = CTs timestamp | CFloat real | CInt int | CStr string | CNaN

text \<open>The dict \<^verbatim>\<open>open_entry\<close> (keys \<^verbatim>\<open>entry_dt\<close>, \<^verbatim>\<open>entry_price\<close>, \<^verbatim>\<open>qty\<close>).\<close>

record open_entry =
  oe_entry_dt :: timestamp
  oe_entry_price :: real
  oe_qty :: int

text \<open>A dict appended to \<^verbatim>\<open>orders\<close>; its keys are the fields.\<close>

record order =
  entry_dt :: cell
  entry_price :: cell
  qty :: cell
  exit_dt :: cell
  exit_price :: cell
  pnl :: cell
  bars_held :: cell

text \<open>The two local variables the loop updates: the list \<^verbatim>\<open>orders\<close> and
  \<^verbatim>\<open>open_entry\<close> (the field \<open>position\<close>, \<open>None\<close> as in the source).\<close>

record sim_state =
  orders :: "order list"
  position :: "open_entry option"

text \<open>\<^verbatim>\<open>out["signal"].shift(1).fillna(0)\<close>.\<close>

definition signal_prev :: "sigbar list \<Rightarrow> int list" where
  "signal_prev df = take (length df) (0 # map signal df)"

text \<open>\<^verbatim>\<open>out.iloc[i]\<close> for \<open>i \<ge> 0\<close>: IndexError out of range.\<close>

definition iloc :: "'a list \<Rightarrow> nat \<Rightarrow> error + 'a" where
  "iloc xs i = (if i < length xs then Inr (xs ! i) else Inl IndexError)"

text \<open>The first \<^verbatim>\<open>if\<close> of the loop body (lines 60-66). A row of \<^verbatim>\<open>out\<close> is a pair of
  the signal bar and its \<^verbatim>\<open>signal_prev\<close>.\<close>

definition entry_step ::
  "tzdb \<Rightarrow> int \<Rightarrow> string \<Rightarrow> sigbar \<times> int \<Rightarrow> sigbar \<times> int \<Rightarrow> sim_state \<Rightarrow> error + sim_state" where
  "entry_step db q tzname row next_row st =
     (if snd row = 0 \<and> signal (fst row) = 1 \<and> position st = None
      then bnd (make_dt db (date (fst next_row)) 9 15 tzname)
             (\<lambda>ts. Inr (st\<lparr>position :=
                Some \<lparr>oe_entry_dt = ts, oe_entry_price = opn (fst next_row), oe_qty = q\<rparr>\<rparr>))
      else Inr st)"

text \<open>The second \<^verbatim>\<open>if\<close> of the loop body (lines 69-82); the test
  \<^verbatim>\<open>open_entry is not None\<close> is the case distinction.\<close>

definition exit_step ::
  "tzdb \<Rightarrow> string \<Rightarrow> sigbar \<times> int \<Rightarrow> sigbar \<times> int \<Rightarrow> sim_state \<Rightarrow> error + sim_state" where
  "exit_step db tzname row next_row st =
     (case position st of
        Some e \<Rightarrow>
          if snd row = 1 \<and> signal (fst row) = 0
          then bnd (make_dt db (date (fst next_row)) 9 15 tzname) (\<lambda>x.
               let p = (opn (fst next_row) - oe_entry_price e) * of_int (oe_qty e)
               in bnd (ts_sub db (tz_localize_None x) (tz_localize_None (oe_entry_dt e)))
                    (\<lambda>d. let h = timedelta_days d
                         in Inr (st\<lparr>orders := orders st @
                               [\<lparr>entry_dt = CTs (oe_entry_dt e),
                                 entry_price = CFloat (oe_entry_price e),
                                 qty = CInt (oe_qty e),
                                 exit_dt = CTs x,
                                 exit_price = CFloat (opn (fst next_row)),
                                 pnl = CFloat p,
                                 bars_held = CInt h\<rparr>],
                             position := None\<rparr>)))
          else Inr st
      | None \<Rightarrow> Inr st)"

definition loop_body ::
  "tzdb \<Rightarrow> int \<Rightarrow> string \<Rightarrow> (sigbar \<times> int) list \<Rightarrow> sim_state \<Rightarrow> nat \<Rightarrow> error + sim_state" where
  "loop_body db q tzname out st idx =
     bnd (iloc out idx) (\<lambda>row.
     bnd (iloc out (idx + 1)) (\<lambda>next_row.
     bnd (entry_step db q tzname row next_row st) (\<lambda>st1.
     exit_step db tzname row next_row st1)))"

text \<open>\<^verbatim>\<open>for idx in idxs\<close>: an exception leaves the loop.\<close>

fun for_loop ::
  "tzdb \<Rightarrow> int \<Rightarrow> string \<Rightarrow> (sigbar \<times> int) list \<Rightarrow> nat list \<Rightarrow> sim_state \<Rightarrow> error + sim_state" where
  "for_loop db q tzname out [] st = Inr st"
| "for_loop db q tzname out (idx # idxs) st =
     bnd (loop_body db q tzname out st idx) (for_loop db q tzname out idxs)"

definition init_state :: sim_state where
  "init_state = \<lparr>orders = [], position = None\<rparr>"

text \<open>The state after the first \<open>k\<close> iterations of the loop of \<^verbatim>\<open>generate_orders\<close>.\<close>

definition loop_upto :: "tzdb \<Rightarrow> sigbar list \<Rightarrow> int \<Rightarrow> string \<Rightarrow> nat \<Rightarrow> error + sim_state" where
  "loop_upto db df q tzname k = for_loop db q tzname (zip df (signal_prev df)) [0..<k] init_state"

text \<open>The dict appended after the loop for a position still open (lines 85-94).\<close>

definition open_record :: "open_entry \<Rightarrow> order" where
  "open_record e =
     \<lparr>entry_dt = CTs (oe_entry_dt e), entry_price = CFloat (oe_entry_price e),
      qty = CInt (oe_qty e), exit_dt = CStr '''', exit_price = CStr '''', pnl = CStr '''',
      bars_held = CStr ''''\<rparr>"

text \<open>The list \<^verbatim>\<open>orders\<close> as it stands at line 96; \<^verbatim>\<open>range(n - 1)\<close> is empty for
  \<open>n = 0\<close>, as is \<open>[0..<0 - 1]\<close>.\<close>

definition raw_orders :: "tzdb \<Rightarrow> sigbar list \<Rightarrow> int \<Rightarrow> string \<Rightarrow> error + order list" where
  "raw_orders db df q tzname =
     bnd (loop_upto db df q tzname (length df - 1))
       (\<lambda>st. Inr (case position st of
                     None \<Rightarrow> orders st
                   | Some e \<Rightarrow> orders st @ [open_record e]))"

section \<open>The ledger frame\<close>

definition OUTPUT_COLS :: "string list" where
  "OUTPUT_COLS =
     [''entry_dt'', ''entry_price'', ''qty'', ''exit_dt'', ''exit_price'', ''pnl'', ''bars_held'']"

text \<open>A DataFrame of cells: the column labels in order and the rows, each row holding
  one cell per column in that order.\<close>

record frame =
  columns :: "string list"
  rows :: "cell list list"

text \<open>Lookup of a key in an order dict.\<close>

definition order_get :: "order \<Rightarrow> string \<Rightarrow> cell option" where
  "order_get r k =
     (if k = ''entry_dt'' then Some (entry_dt r)
      else if k = ''entry_price'' then Some (entry_price r)
      else if k = ''qty'' then Some (qty r)
      else if k = ''exit_dt'' then Some (exit_dt r)
      else if k = ''exit_price'' then Some (exit_price r)
      else if k = ''pnl'' then Some (pnl r)
      else if k = ''bars_held'' then Some (bars_held r)
      else None)"

text \<open>\<^verbatim>\<open>pd.DataFrame(orders, columns=cols)\<close>: one row per dict, the cells selected by
  column label in the order of \<open>cols\<close>, NaN for a key the dict lacks.\<close>

definition DataFrame :: "order list \<Rightarrow> string list \<Rightarrow> frame" where
  "DataFrame os cols =
     \<lparr>columns = cols,
      rows = map (\<lambda>r. map (\<lambda>c. case order_get r c of Some v \<Rightarrow> v | None \<Rightarrow> CNaN) cols) os\<rparr>"

fun col_pos :: "string list \<Rightarrow> string \<Rightarrow> nat option" where
  "col_pos [] c = None"
| "col_pos (x # xs) c = (if x = c then Some 0 else map_option Suc (col_pos xs c))"

text \<open>\<^verbatim>\<open>frame[c]\<close>: KeyError for a label that is not a column.\<close>

definition get_col :: "frame \<Rightarrow> string \<Rightarrow> error + cell list" where
  "get_col f c =
     (case col_pos (columns f) c of
        None \<Rightarrow> Inl KeyError
      | Some j \<Rightarrow> Inr (map (\<lambda>r. r ! j) (rows f)))"

text \<open>\<^verbatim>\<open>frame[c] = vs\<close> for an existing column \<open>c\<close> and one value per row.\<close>

definition set_col :: "frame \<Rightarrow> string \<Rightarrow> cell list \<Rightarrow> frame" where
  "set_col f c vs =
     (case col_pos (columns f) c of
        None \<Rightarrow> f
      | Some j \<Rightarrow> f\<lparr>rows := map (\<lambda>(r, v). r[j := v]) (zip (rows f) vs)\<rparr>)"

fun is_aware :: "cell \<Rightarrow> bool" where
  "is_aware (CTs t) = (ts_tz t \<noteq> None)"
| "is_aware _ = False"

fun is_naive :: "cell \<Rightarrow> bool" where
  "is_naive (CTs t) = (ts_tz t = None)"
| "is_naive _ = False"

fun in_zone :: "string \<Rightarrow> cell \<Rightarrow> bool" where
  "in_zone z (CTs t) = (ts_tz t = Some z)"
| "in_zone z _ = False"

text \<open>The test \<^verbatim>\<open>frame[c].dtype == "datetime64[ns, z]"\<close>: the frame constructor gives a
  column that dtype when it is not empty and holds only timestamps localized to \<open>z\<close>;
  an empty column and a column with a string in it have dtype object.\<close>

definition has_dtype_tz :: "string \<Rightarrow> cell list \<Rightarrow> bool" where
  "has_dtype_tz z cells = (cells \<noteq> [] \<and> list_all (in_zone z) cells)"

text \<open>
  \<^verbatim>\<open>pd.to_datetime\<close> on one value: a timestamp is kept, the empty string and NaN become
  NaT (\<open>None\<close>). The simulator puts nothing else in the two timestamp columns; other
  strings and numbers are outside the model.
\<close>

fun to_datetime_cell :: "cell \<Rightarrow> error + timestamp option" where
  "to_datetime_cell (CTs t) = Inr (Some t)"
| "to_datetime_cell (CStr s) = (if s = [] then Inr None else Inl Unmodelled)"
| "to_datetime_cell CNaN = Inr None"
| "to_datetime_cell (CFloat x) = Inl Unmodelled"
| "to_datetime_cell (CInt n) = Inl Unmodelled"

fun map_res :: "('a \<Rightarrow> error + 'b) \<Rightarrow> 'a list \<Rightarrow> error + 'b list" where
  "map_res g [] = Inr []"
| "map_res g (x # xs) = bnd (g x) (\<lambda>y. bnd (map_res g xs) (\<lambda>ys. Inr (y # ys)))"

text \<open>A column that holds a localized and a naive timestamp.\<close>

definition mixed_tz :: "cell list \<Rightarrow> bool" where
  "mixed_tz cells = (list_ex is_aware cells \<and> list_ex is_naive cells)"

text \<open>\<^verbatim>\<open>pd.to_datetime\<close> on a column: ValueError when localized and naive timestamps
  are mixed.\<close>

definition to_datetime :: "cell list \<Rightarrow> error + timestamp option list" where
  "to_datetime cells =
     (if mixed_tz cells then Inl ValueError else map_res to_datetime_cell cells)"

text \<open>\<^verbatim>\<open>.dt.strftime(fmt)\<close> on one value of a datetime column: NaT gives NaN.\<close>

fun strftime_opt :: "timestamp option \<Rightarrow> cell" where
  "strftime_opt (Some t) = CStr (strftime t)"
| "strftime_opt None = CNaN"

text \<open>\<^verbatim>\<open>.dt.tz_localize(None).dt.strftime(fmt)\<close> on one value of a localized column.\<close>

fun strftime_local :: "cell \<Rightarrow> cell" where
  "strftime_local (CTs t) = CStr (strftime (tz_localize_None t))"
| "strftime_local c = c"

text \<open>The body of the loop over the two timestamp columns (lines 99-106): every
  exception of the \<^verbatim>\<open>else\<close> branch is swallowed and leaves the column as it is.\<close>

definition format_col :: "frame \<Rightarrow> string \<Rightarrow> frame" where
  "format_col f c =
     (case get_col f c of
        Inl _ \<Rightarrow> f
      | Inr cells \<Rightarrow>
          if has_dtype_tz ''Asia/Kolkata'' cells
          then set_col f c (map strftime_local cells)
          else (case to_datetime cells of
                  Inl _ \<Rightarrow> f
                | Inr ds \<Rightarrow> set_col f c (map strftime_opt ds)))"

definition generate_orders :: "tzdb \<Rightarrow> sigbar list \<Rightarrow> int \<Rightarrow> string \<Rightarrow> error + frame" where
  "generate_orders db df q tzname =
     bnd (raw_orders db df q tzname)
       (\<lambda>os. Inr (foldl format_col (DataFrame os OUTPUT_COLS) [''entry_dt'', ''exit_dt'']))"

section \<open>Counting transitions\<close>

text \<open>Whether iteration \<open>i\<close> of the loop takes the branch of line 60 (a position is
  opened), and whether it takes the branch of line 69 (the position is closed).\<close>

definition entry_taken :: "tzdb \<Rightarrow> sigbar list \<Rightarrow> int \<Rightarrow> string \<Rightarrow> nat \<Rightarrow> bool" where
  "entry_taken db df q tzname i =
     (case loop_upto db df q tzname i of
        Inr st \<Rightarrow> signal_prev df ! i = 0 \<and> signal (df ! i) = 1 \<and> position st = None
      | Inl _ \<Rightarrow> False)"

definition exit_taken :: "tzdb \<Rightarrow> sigbar list \<Rightarrow> int \<Rightarrow> string \<Rightarrow> nat \<Rightarrow> bool" where
  "exit_taken db df q tzname i =
     (case loop_upto db df q tzname i of
        Inr st \<Rightarrow> signal_prev df ! i = 1 \<and> signal (df ! i) = 0 \<and> position st \<noteq> None
      | Inl _ \<Rightarrow> False)"

text \<open>The number of positions a state holds open.\<close>

definition open_count :: "sim_state \<Rightarrow> nat" where
  "open_count st = (case position st of None \<Rightarrow> 0 | Some _ \<Rightarrow> 1)"

text \<open>The dict of lines 62-66 when iteration \<open>i\<close> opens the position, and the dict of
  lines 73-81 for a position opened in iteration \<open>i\<close> and closed in iteration \<open>j\<close>:
  the fills are on bars \<open>i + 1\<close> and \<open>j + 1\<close>.\<close>

definition opened_entry :: "tzdb \<Rightarrow> sigbar list \<Rightarrow> int \<Rightarrow> string \<Rightarrow> nat \<Rightarrow> error + open_entry" where
  "opened_entry db df q tzname i =
     bnd (make_dt db (date (df ! (i + 1))) 9 15 tzname)
       (\<lambda>ts. Inr \<lparr>oe_entry_dt = ts, oe_entry_price = opn (df ! (i + 1)), oe_qty = q\<rparr>)"

definition closed_trade :: "tzdb \<Rightarrow> sigbar list \<Rightarrow> int \<Rightarrow> string \<Rightarrow> nat \<Rightarrow> nat \<Rightarrow> error + order" where
  "closed_trade db df q tzname i j =
     bnd (make_dt db (date (df ! (i + 1))) 9 15 tzname) (\<lambda>tE.
     bnd (make_dt db (date (df ! (j + 1))) 9 15 tzname) (\<lambda>tX.
     bnd (ts_sub db (tz_localize_None tX) (tz_localize_None tE)) (\<lambda>d.
       Inr \<lparr>entry_dt = CTs tE, entry_price = CFloat (opn (df ! (i + 1))), qty = CInt q,
            exit_dt = CTs tX, exit_price = CFloat (opn (df ! (j + 1))),
            pnl = CFloat ((opn (df ! (j + 1)) - opn (df ! (i + 1))) * of_int q),
            bars_held = CInt (timedelta_days d)\<rparr>)))"

section \<open>Reading the ledger\<close>

text \<open>What the formatting makes of one cell when the conversion of its column
  succeeds: \<^verbatim>\<open>pd.to_datetime\<close> followed by \<^verbatim>\<open>strftime\<close>.\<close>

definition fmt_cell :: "cell \<Rightarrow> cell" where
  "fmt_cell c = (case to_datetime_cell c of Inr d \<Rightarrow> strftime_opt d | Inl _ \<Rightarrow> c)"

text \<open>The cells the simulator puts in a timestamp column: a timestamp or the empty
  string.\<close>

fun dt_cell :: "cell \<Rightarrow> bool" where
  "dt_cell (CTs t) = True"
| "dt_cell (CStr s) = (s = [])"
| "dt_cell _ = False"

text \<open>An empty cell: the empty string, or the missing value NaN, which a writer of the
  frame leaves empty.\<close>

fun is_blank :: "cell \<Rightarrow> bool" where
  "is_blank (CStr s) = (s = [])"
| "is_blank CNaN = True"
| "is_blank _ = False"

text \<open>The row of the ledger for one order dict when the two timestamp columns were
  mapped by \<open>gE\<close> and \<open>gX\<close>.\<close>

definition ledger_row :: "(cell \<Rightarrow> cell) \<Rightarrow> (cell \<Rightarrow> cell) \<Rightarrow> order \<Rightarrow> cell list" where
  "ledger_row gE gX r =
     [gE (entry_dt r), entry_price r, qty r, gX (exit_dt r), exit_price r, pnl r, bars_held r]"

section \<open>Example data\<close>

definition mk_date :: "int \<Rightarrow> int \<Rightarrow> int \<Rightarrow> date" where
  "mk_date y m d = \<lparr>year = y, month = m, day = d\<rparr>"

definition mk_bar :: "date \<Rightarrow> real \<Rightarrow> real \<Rightarrow> bar" where
  "mk_bar dt x c = \<lparr>date = dt, opn = x, high = max x c, low = min x c, close = c, volume = None\<rparr>"

definition mk_sigbar :: "date \<Rightarrow> real \<Rightarrow> int \<Rightarrow> sigbar" where
  "mk_sigbar dt x s =
     \<lparr>date = dt, opn = x, high = x, low = x, close = x, volume = None,
      sma_fast = None, sma_slow = None, signal = s\<rparr>"

text \<open>A zone database that knows two zones, every wall-clock time existing in both:
  Asia/Kolkata five and a half hours ahead of UTC, and UTC.\<close>

definition db_std :: tzdb where
  "db_std z t =
     (if z = ''Asia/Kolkata'' then Some 330 else if z = ''UTC'' then Some 0 else None)"

text \<open>Six bars from Monday 2024-01-01 to Monday 2024-01-08 with the closes of the
  end-to-end scenario.\<close>

definition bars6 :: "bar list" where
  "bars6 =
     [mk_bar (mk_date 2024 1 1) 10 10, mk_bar (mk_date 2024 1 2) 10 10,
      mk_bar (mk_date 2024 1 3) 10 10, mk_bar (mk_date 2024 1 4) 11 12,
      mk_bar (mk_date 2024 1 5) 12 12, mk_bar (mk_date 2024 1 8) 9 8]"

text \<open>Seven signal bars: the signal rises on Wednesday, falls on Friday; the entry is
  filled on Thursday 2024-01-04 and the exit on Monday 2024-01-08.\<close>

definition sig7 :: "sigbar list" where
  "sig7 =
     [mk_sigbar (mk_date 2024 1 1) 10 0, mk_sigbar (mk_date 2024 1 2) 10 0,
      mk_sigbar (mk_date 2024 1 3) 10 1, mk_sigbar (mk_date 2024 1 4) 11 1,
      mk_sigbar (mk_date 2024 1 5) 12 0, mk_sigbar (mk_date 2024 1 8) 9 0,
      mk_sigbar (mk_date 2024 1 9) 9 0]"

text \<open>Two series with the same signals, so that both trades are entered on bar 2 and
  left on bar 3: in the first these bars are Thursday and Friday, in the second Friday
  and the following Monday.\<close>

definition week_a :: "sigbar list" where
  "week_a =
     [mk_sigbar (mk_date 2024 1 2) 10 0, mk_sigbar (mk_date 2024 1 3) 10 1,
      mk_sigbar (mk_date 2024 1 4) 11 0, mk_sigbar (mk_date 2024 1 5) 12 0]"

definition week_b :: "sigbar list" where
  "week_b =
     [mk_sigbar (mk_date 2024 1 3) 10 0, mk_sigbar (mk_date 2024 1 4) 10 1,
      mk_sigbar (mk_date 2024 1 5) 11 0, mk_sigbar (mk_date 2024 1 8) 12 0]"

text \<open>Samoa skipped 2011-12-30 when it moved across the date line: no wall-clock time
  of that day exists in the zone Pacific/Apia, and \<^verbatim>\<open>tz_localize\<close> fails for it. A
  series around that day with two entries, filled on 2011-12-30 and on 2012-01-04.\<close>

definition db_apia :: tzdb where
  "db_apia z t =
     (if z = ''Pacific/Apia'' \<and> \<not> (ts_year t = 2011 \<and> ts_month t = 12 \<and> ts_day t = 30)
      then Some (if ts_year t \<le> 2011 then - 600 else 840)
      else None)"

definition apia_df :: "sigbar list" where
  "apia_df =
     [mk_sigbar (mk_date 2011 12 28) 10 0, mk_sigbar (mk_date 2011 12 29) 10 1,
      mk_sigbar (mk_date 2011 12 30) 11 0, mk_sigbar (mk_date 2012 1 3) 12 1,
      mk_sigbar (mk_date 2012 1 4) 13 1]"

text \<open>The zone Europe/London in 2024: summer time, one hour ahead of UTC, from
  2024-03-31 02:00 to 2024-10-27 01:00; the hour from 01:00 of 2024-03-31 does not
  exist and the hour from 01:00 of 2024-10-27 is ambiguous, and \<^verbatim>\<open>tz_localize\<close> fails
  for both. A series around Easter, when the London market is closed on Friday and
  Monday: the trade is entered on Thursday 2024-03-28, in winter time, and left on
  Tuesday 2024-04-02, in summer time.\<close>

definition db_london :: tzdb where
  "db_london z t =
     (if z = ''Europe/London'' \<and> ts_year t = 2024 \<and>
         \<not> (ts_month t = 3 \<and> ts_day t = 31 \<and> ts_hour t = 1) \<and>
         \<not> (ts_month t = 10 \<and> ts_day t = 27 \<and> ts_hour t = 1)
      then Some (if (ts_month t = 3 \<and> ts_day t = 31 \<and> 2 \<le> ts_hour t) \<or>
                    (4 \<le> ts_month t \<and> ts_month t \<le> 9) \<or>
                    (ts_month t = 10 \<and> (ts_day t \<le> 26 \<or> (ts_day t = 27 \<and> ts_hour t < 1)))
                 then 60 else 0)
      else None)"

definition london_df :: "sigbar list" where
  "london_df =
     [mk_sigbar (mk_date 2024 3 26) 10 0, mk_sigbar (mk_date 2024 3 27) 10 1,
      mk_sigbar (mk_date 2024 3 28) 11 0, mk_sigbar (mk_date 2024 4 2) 12 0]"

text \<open>A trade entered on Wednesday 2024-02-28 and left on Friday 2024-03-01, across the
  leap day.\<close>

definition leap_df :: "sigbar list" where
  "leap_df =
     [mk_sigbar (mk_date 2024 2 26) 10 0, mk_sigbar (mk_date 2024 2 27) 10 1,
      mk_sigbar (mk_date 2024 2 28) 11 0, mk_sigbar (mk_date 2024 3 1) 12 0]"

section \<open>Signal generator: properties\<close>

lemma length_rolling_mean: "length (rolling_mean rm w xs) = length xs"
  by (simp add: rolling_mean_def)

lemma rolling_mean_nth:
  "i < length xs \<Longrightarrow> rolling_mean rm w xs ! i = rolling_mean_at rm w xs i"
  by (simp add: rolling_mean_def)

lemma length_compute_sma_signals: "length (compute_sma_signals rm df fast slow) = length df"
  by (simp add: compute_sma_signals_def Let_def)

lemma compute_sma_signals_nth:
  "i < length df \<Longrightarrow>
   compute_sma_signals rm df fast slow ! i =
     with_signal (df ! i) (rolling_mean_at rm fast (map close df) i)
       (rolling_mean_at rm slow (map close df) i)"
  by (simp add: compute_sma_signals_def Let_def rolling_mean_nth)

lemma signal_with_signal: "signal (with_signal b f s) = astype_int (gt_nan f s)"
  by (simp add: with_signal_def bar.extend_def)

lemma sma_fast_with_signal: "sma_fast (with_signal b f s) = f"
  by (simp add: with_signal_def bar.extend_def)

lemma sma_slow_with_signal: "sma_slow (with_signal b f s) = s"
  by (simp add: with_signal_def bar.extend_def)

lemma gt_nan_iff: "gt_nan f s \<longleftrightarrow> (\<exists>a b. f = Some a \<and> s = Some b \<and> b < a)"
  by (cases f; cases s) auto

lemma rolling_mean_at_None_iff:
  "0 < w \<Longrightarrow> rolling_mean_at rm w xs i = None \<longleftrightarrow> i + 1 < w"
  by (auto simp: rolling_mean_at_def)

lemma rolling_mean_at_Some:
  "0 < w \<Longrightarrow> w \<le> i + 1 \<Longrightarrow> rolling_mean_at rm w xs i = Some (rm w (take (i + 1) xs))"
  by (simp add: rolling_mean_at_def)

text \<open>In exact arithmetic the kernel is the unweighted mean of the last \<open>w\<close> rows.\<close>

lemma drop_take_nth:
  assumes "n \<le> length xs"
  shows "drop m (take n xs) = map (\<lambda>j. xs ! j) [m..<n]"
  using assms by (intro nth_equalityI) simp_all

lemma exact_mean_window:
  assumes "w \<le> i + 1" and "i < length xs"
  shows "exact_mean w (take (i + 1) xs) = (\<Sum>j = i + 1 - w..i. xs ! j) / real w"
proof -
  have n: "i + 1 \<le> length xs" using assms(2) by simp
  have "length (take (i + 1) xs) = i + 1" using n by simp
  then have "exact_mean w (take (i + 1) xs) =
      sum_list (drop (i + 1 - w) (take (i + 1) xs)) / real w"
    by (simp add: exact_mean_def)
  also have "drop (i + 1 - w) (take (i + 1) xs) = map (\<lambda>j. xs ! j) [i + 1 - w..<i + 1]"
    by (rule drop_take_nth [OF n])
  also have "sum_list (map (\<lambda>j. xs ! j) [i + 1 - w..<i + 1]) =
             (\<Sum>j \<in> {i + 1 - w..<i + 1}. xs ! j)"
    by (simp only: interv_sum_list_conv_sum_set_nat set_upt)
  also have "{i + 1 - w..<i + 1} = {i + 1 - w..i}" by auto
  finally show ?thesis .
qed

text \<open>
  Claim C4. For every price series and positive window lengths, the signal of a bar is
  1 if and only if the fast rolling mean is defined, the slow rolling mean is defined and
  the fast mean is strictly greater than the slow mean; in every other case (an average
  undefined, which is so exactly on the first window - 1 bars of that average, or the
  two averages equal) the signal is 0. The two averages of bar \<open>i\<close> are the values of
  the rolling-mean kernel on the closes of the bars up to \<open>i\<close>, for the windows fast
  and slow; in exact arithmetic that kernel is the sum of the closes of the last window
  bars \<open>i + 1 - w, \<dots>, i\<close> divided by the window.
\<close>

theorem compute_sma_signals_signal_iff:
  assumes "0 < fast" and "0 < slow" and "i < length df"
  shows "(signal (compute_sma_signals rm df fast slow ! i) = 1 \<longleftrightarrow>
            (\<exists>f s. sma_fast (compute_sma_signals rm df fast slow ! i) = Some f \<and>
                   sma_slow (compute_sma_signals rm df fast slow ! i) = Some s \<and> s < f))
       \<and> (signal (compute_sma_signals rm df fast slow ! i) \<noteq> 1 \<longrightarrow>
            signal (compute_sma_signals rm df fast slow ! i) = 0)
       \<and> (sma_fast (compute_sma_signals rm df fast slow ! i) = None \<longleftrightarrow> i + 1 < fast)
       \<and> (sma_slow (compute_sma_signals rm df fast slow ! i) = None \<longleftrightarrow> i + 1 < slow)
       \<and> (sma_fast (compute_sma_signals rm df fast slow ! i) =
            sma_slow (compute_sma_signals rm df fast slow ! i) \<longrightarrow>
            signal (compute_sma_signals rm df fast slow ! i) = 0)
       \<and> (fast \<le> i + 1 \<longrightarrow>
            sma_fast (compute_sma_signals rm df fast slow ! i) =
              Some (rm fast (take (i + 1) (map close df))) \<and>
            exact_mean fast (take (i + 1) (map close df)) =
              (\<Sum>j = i + 1 - fast..i. close (df ! j)) / real fast)
       \<and> (slow \<le> i + 1 \<longrightarrow>
            sma_slow (compute_sma_signals rm df fast slow ! i) =
              Some (rm slow (take (i + 1) (map close df))) \<and>
            exact_mean slow (take (i + 1) (map close df)) =
              (\<Sum>j = i + 1 - slow..i. close (df ! j)) / real slow)"
proof -
  let ?r = "compute_sma_signals rm df fast slow ! i"
  have sig: "signal ?r = astype_int (gt_nan (sma_fast ?r) (sma_slow ?r))"
    using assms(3)
    by (simp add: compute_sma_signals_nth signal_with_signal sma_fast_with_signal
        sma_slow_with_signal)
  have f: "sma_fast ?r = rolling_mean_at rm fast (map close df) i"
    using assms(3) by (simp add: compute_sma_signals_nth sma_fast_with_signal)
  have s: "sma_slow ?r = rolling_mean_at rm slow (map close df) i"
    using assms(3) by (simp add: compute_sma_signals_nth sma_slow_with_signal)
  have c1: "signal ?r = 1 \<longleftrightarrow> (\<exists>f s. sma_fast ?r = Some f \<and> sma_slow ?r = Some s \<and> s < f)"
    unfolding sig by (simp add: astype_int_def gt_nan_iff)
  have c2: "signal ?r \<noteq> 1 \<longrightarrow> signal ?r = 0"
    unfolding sig by (simp add: astype_int_def)
  have c3: "sma_fast ?r = None \<longleftrightarrow> i + 1 < fast"
    unfolding f using assms(1) by (rule rolling_mean_at_None_iff)
  have c4: "sma_slow ?r = None \<longleftrightarrow> i + 1 < slow"
    unfolding s using assms(2) by (rule rolling_mean_at_None_iff)
  have c5: "sma_fast ?r = sma_slow ?r \<longrightarrow> signal ?r = 0"
    using c1 c2 by auto
  have nth: "map close df ! j = close (df ! j)" if "j \<le> i" for j
    using that assms(3) by simp
  have win: "exact_mean w (take (i + 1) (map close df)) =
               (\<Sum>j = i + 1 - w..i. close (df ! j)) / real w" if "w \<le> i + 1" for w
  proof -
    have "exact_mean w (take (i + 1) (map close df)) =
            (\<Sum>j = i + 1 - w..i. map close df ! j) / real w"
      using that assms(3) by (intro exact_mean_window) simp_all
    also have "(\<Sum>j = i + 1 - w..i. map close df ! j) = (\<Sum>j = i + 1 - w..i. close (df ! j))"
      by (intro sum.cong refl nth) simp
    finally show ?thesis .
  qed
  have c6: "fast \<le> i + 1 \<longrightarrow>
            sma_fast ?r = Some (rm fast (take (i + 1) (map close df))) \<and>
            exact_mean fast (take (i + 1) (map close df)) =
              (\<Sum>j = i + 1 - fast..i. close (df ! j)) / real fast"
    unfolding f using assms(1) win by (simp add: rolling_mean_at_Some)
  have c7: "slow \<le> i + 1 \<longrightarrow>
            sma_slow ?r = Some (rm slow (take (i + 1) (map close df))) \<and>
            exact_mean slow (take (i + 1) (map close df)) =
              (\<Sum>j = i + 1 - slow..i. close (df ! j)) / real slow"
    unfolding s using assms(2) win by (simp add: rolling_mean_at_Some)
  show ?thesis
    by (rule conjI [OF c1 conjI [OF c2 conjI [OF c3 conjI [OF c4 conjI [OF c5
        conjI [OF c6 c7]]]]]])
qed

text \<open>On \<open>bars6\<close> with the windows 2 and 3, in exact arithmetic: bar 3 has the means
  11 and 32/3, bar 2 the means 10 and 10, bar 1 no slow mean.\<close>

theorem compute_sma_signals_signal_iff_witness:
  "(0::nat) < 2 \<and> (0::nat) < 3 \<and> 3 < length bars6 \<and>
   signal (compute_sma_signals exact_mean bars6 2 3 ! 3) = 1 \<and>
   sma_fast (compute_sma_signals exact_mean bars6 2 3 ! 3) = Some 11 \<and>
   sma_slow (compute_sma_signals exact_mean bars6 2 3 ! 3) = Some (32 / 3) \<and>
   signal (compute_sma_signals exact_mean bars6 2 3 ! 2) = 0 \<and>
   sma_fast (compute_sma_signals exact_mean bars6 2 3 ! 2) = Some 10 \<and>
   sma_slow (compute_sma_signals exact_mean bars6 2 3 ! 2) = Some 10 \<and>
   sma_slow (compute_sma_signals exact_mean bars6 2 3 ! 1) = None \<and>
   signal (compute_sma_signals exact_mean bars6 2 3 ! 1) = 0"
proof -
  let ?s = "compute_sma_signals exact_mean bars6 2 3"
  have len: "3 < length bars6" "2 < length bars6" "1 < length bars6"
    by (simp_all add: bars6_def)
  have f3: "sma_fast (?s ! 3) = Some 11" and s3: "sma_slow (?s ! 3) = Some (32 / 3)"
    and f2: "sma_fast (?s ! 2) = Some 10" and s2: "sma_slow (?s ! 2) = Some 10"
    by code_simp+
  have p2: "(0::nat) < 2" and p3: "(0::nat) < 3" by simp_all
  note t3 = compute_sma_signals_signal_iff [OF p2 p3 len(1), where rm = exact_mean]
  note t2 = compute_sma_signals_signal_iff [OF p2 p3 len(2), where rm = exact_mean]
  note t1 = compute_sma_signals_signal_iff [OF p2 p3 len(3), where rm = exact_mean]
  have "(32::real) / 3 < 11" by simp
  with f3 s3 have "\<exists>f s. sma_fast (?s ! 3) = Some f \<and> sma_slow (?s ! 3) = Some s \<and> s < f"
    by blast
  with t3 have a: "signal (?s ! 3) = 1" by blast
  from f2 s2 have "sma_fast (?s ! 2) = sma_slow (?s ! 2)" by simp
  with t2 have b: "signal (?s ! 2) = 0" by blast
  have "(1::nat) + 1 < 3" by simp
  with t1 have c: "sma_slow (?s ! 1) = None" by blast
  then have "\<not> (\<exists>f s. sma_fast (?s ! 1) = Some f \<and> sma_slow (?s ! 1) = Some s \<and> s < f)"
    by simp
  with t1 have d: "signal (?s ! 1) = 0" by blast
  show ?thesis
    by (intro conjI p2 p3 len(1) a f3 s3 b f2 s2 c d)
qed

section \<open>Order simulator: the loop\<close>

lemma bnd_Inl [simp]: "bnd (Inl e) f = Inl e"
  by (simp add: bnd_def)

lemma bnd_Inr [simp]: "bnd (Inr x) f = f x"
  by (simp add: bnd_def)

lemma bnd_eq_Inr_iff: "bnd r f = Inr y \<longleftrightarrow> (\<exists>x. r = Inr x \<and> f x = Inr y)"
  by (cases r) auto

lemma make_dt_9_15:
  "make_dt db d 9 15 tz =
     Inr \<lparr>ts_year = year d, ts_month = month d, ts_day = day d, ts_hour = 9, ts_minute = 15,
          ts_tz = (if db tz \<lparr>ts_year = year d, ts_month = month d, ts_day = day d,
                             ts_hour = 9, ts_minute = 15, ts_tz = None\<rparr> \<noteq> None
                   then Some tz else None)\<rparr>"
  by (simp add: make_dt_def Timestamp_def tz_localize_def)

lemma make_dt_9_15_fields:
  assumes "make_dt db d 9 15 tz = Inr ts"
  shows "ts_year ts = year d" "ts_month ts = month d" "ts_day ts = day d"
    "ts_hour ts = 9" "ts_minute ts = 15" "ts_tz ts = None \<or> ts_tz ts = Some tz"
  using assms by (auto simp: make_dt_9_15 split: if_splits)

lemma length_signal_prev [simp]: "length (signal_prev df) = length df"
  by (simp add: signal_prev_def)

lemma signal_prev_nth:
  "k < length df \<Longrightarrow> signal_prev df ! k = (if k = 0 then 0 else signal (df ! (k - 1)))"
  by (cases k) (simp_all add: signal_prev_def)

lemma iloc_zip:
  "k < length df \<Longrightarrow> iloc (zip df (signal_prev df)) k = Inr (df ! k, signal_prev df ! k)"
  by (simp add: iloc_def)

text \<open>The subtraction of line 72 is between two naive timestamps and cannot raise.\<close>

lemma ts_sub_stripped:
  "ts_sub db (tz_localize_None a) (tz_localize_None b) =
     Inr (ts_minutes (tz_localize_None a) - ts_minutes (tz_localize_None b))"
  by (simp add: ts_sub_def utc_minutes_def tz_localize_None_def)

lemma loop_body_entry:
  assumes "k + 1 < length df" and "signal_prev df ! k = 0" and "signal (df ! k) = 1"
    and "position st = None" and "make_dt db (date (df ! (k + 1))) 9 15 tz = Inr ts"
  shows "loop_body db q tz (zip df (signal_prev df)) st k =
           Inr (st\<lparr>position := Some \<lparr>oe_entry_dt = ts, oe_entry_price = opn (df ! (k + 1)),
                                     oe_qty = q\<rparr>\<rparr>)"
  using assms by (simp add: loop_body_def iloc_zip entry_step_def exit_step_def)

lemma loop_body_exit:
  assumes "k + 1 < length df" and "signal_prev df ! k = 1" and "signal (df ! k) = 0"
    and "position st = Some e" and "make_dt db (date (df ! (k + 1))) 9 15 tz = Inr x"
  shows "loop_body db q tz (zip df (signal_prev df)) st k =
           Inr (st\<lparr>orders := orders st @
                  [\<lparr>entry_dt = CTs (oe_entry_dt e),
                    entry_price = CFloat (oe_entry_price e),
                    qty = CInt (oe_qty e),
                    exit_dt = CTs x,
                    exit_price = CFloat (opn (df ! (k + 1))),
                    pnl = CFloat ((opn (df ! (k + 1)) - oe_entry_price e) * of_int (oe_qty e)),
                    bars_held = CInt (timedelta_days (ts_minutes (tz_localize_None x) -
                        ts_minutes (tz_localize_None (oe_entry_dt e))))\<rparr>],
                position := None\<rparr>)"
  using assms
  by (simp add: loop_body_def iloc_zip entry_step_def exit_step_def Let_def ts_sub_stripped)

lemma loop_body_noop:
  assumes "k + 1 < length df"
    and "\<not> (signal_prev df ! k = 0 \<and> signal (df ! k) = 1 \<and> position st = None)"
    and "\<not> (signal_prev df ! k = 1 \<and> signal (df ! k) = 0 \<and> position st \<noteq> None)"
  shows "loop_body db q tz (zip df (signal_prev df)) st k = Inr st"
  using assms
  by (auto simp: loop_body_def iloc_zip entry_step_def exit_step_def split: option.splits)

lemma for_loop_append:
  "for_loop db q tz out (xs @ ys) st =
     bnd (for_loop db q tz out xs st) (for_loop db q tz out ys)"
proof (induction xs arbitrary: st)
  case Nil
  show ?case by simp
next
  case (Cons i xs)
  show ?case
    by (cases "loop_body db q tz out st i") (simp_all add: Cons.IH)
qed

lemma loop_upto_0: "loop_upto db df q tz 0 = Inr init_state"
  by (simp add: loop_upto_def)

lemma loop_upto_Suc:
  "loop_upto db df q tz (Suc k) =
     bnd (loop_upto db df q tz k) (\<lambda>st. loop_body db q tz (zip df (signal_prev df)) st k)"
proof -
  have "for_loop db q tz (zip df (signal_prev df)) [k] =
          (\<lambda>st. loop_body db q tz (zip df (signal_prev df)) st k)"
    by (rule ext) (simp add: bnd_def split: sum.splits)
  then show ?thesis
    by (simp add: loop_upto_def for_loop_append)
qed

lemma loop_body_total:
  assumes "k + 1 < length df"
  shows "\<exists>st'. loop_body db q tz (zip df (signal_prev df)) st k = Inr st'"
proof -
  obtain ts where ts: "make_dt db (date (df ! (k + 1))) 9 15 tz = Inr ts"
    by (simp add: make_dt_9_15)
  consider (entry) "signal_prev df ! k = 0 \<and> signal (df ! k) = 1 \<and> position st = None"
    | (exit) "signal_prev df ! k = 1 \<and> signal (df ! k) = 0 \<and> position st \<noteq> None"
    | (noop) "\<not> (signal_prev df ! k = 0 \<and> signal (df ! k) = 1 \<and> position st = None)"
      "\<not> (signal_prev df ! k = 1 \<and> signal (df ! k) = 0 \<and> position st \<noteq> None)"
    by blast
  then show ?thesis
  proof cases
    case entry
    then show ?thesis using loop_body_entry [OF assms _ _ _ ts] by blast
  next
    case exit
    then obtain e where "position st = Some e" by blast
    with exit show ?thesis using loop_body_exit [OF assms _ _ _ ts] by blast
  next
    case noop
    then show ?thesis using loop_body_noop [OF assms] by blast
  qed
qed

lemma loop_upto_total:
  "k \<le> length df - 1 \<Longrightarrow> \<exists>st. loop_upto db df q tz k = Inr st"
proof (induction k)
  case 0
  show ?case by (simp add: loop_upto_0)
next
  case (Suc k)
  then obtain st where st: "loop_upto db df q tz k = Inr st" by auto
  from Suc.prems have "k + 1 < length df" by simp
  from loop_body_total [OF this] obtain st'
    where "loop_body db q tz (zip df (signal_prev df)) st k = Inr st'" by blast
  with st show ?case by (simp add: loop_upto_Suc)
qed

section \<open>Order simulator: transitions\<close>

lemma loop_body_cong:
  assumes len: "length df = length df'" and k: "k + 1 < length df"
    and row: "df ! k = df' ! k" and prev: "signal_prev df ! k = signal_prev df' ! k"
    and d: "date (df ! (k + 1)) = date (df' ! (k + 1))"
    and p: "opn (df ! (k + 1)) = opn (df' ! (k + 1))"
  shows "loop_body db q tz (zip df (signal_prev df)) st k =
         loop_body db q tz (zip df' (signal_prev df')) st k"
proof -
  from len k have k': "k + 1 < length df'" by simp
  obtain ts where ts: "make_dt db (date (df ! (k + 1))) 9 15 tz = Inr ts"
    by (simp add: make_dt_9_15)
  then have ts': "make_dt db (date (df' ! (k + 1))) 9 15 tz = Inr ts"
    using d by simp
  consider (entry) "signal_prev df ! k = 0 \<and> signal (df ! k) = 1 \<and> position st = None"
    | (exit) "signal_prev df ! k = 1 \<and> signal (df ! k) = 0 \<and> position st \<noteq> None"
    | (noop) "\<not> (signal_prev df ! k = 0 \<and> signal (df ! k) = 1 \<and> position st = None)"
      "\<not> (signal_prev df ! k = 1 \<and> signal (df ! k) = 0 \<and> position st \<noteq> None)"
    by blast
  then show ?thesis
  proof cases
    case entry
    then show ?thesis
      using loop_body_entry [OF k _ _ _ ts, of st q] loop_body_entry [OF k' _ _ _ ts', of st q]
        row prev p by simp
  next
    case exit
    then obtain e where e: "position st = Some e" by blast
    with exit show ?thesis
      using loop_body_exit [OF k _ _ e ts, of q] loop_body_exit [OF k' _ _ e ts', of q]
        row prev p by simp
  next
    case noop
    then show ?thesis
      using loop_body_noop [OF k, of st db q tz] loop_body_noop [OF k', of st db q tz]
        row prev by simp
  qed
qed

lemma loop_upto_cong:
  assumes len: "length df = length df'"
    and pre: "\<forall>i. i + 1 < length df \<longrightarrow> df ! i = df' ! i"
    and lst: "date (last df) = date (last df')" "opn (last df) = opn (last df')"
  shows "k \<le> length df - 1 \<Longrightarrow> loop_upto db df q tz k = loop_upto db df' q tz k"
proof (induction k)
  case 0
  show ?case by (simp add: loop_upto_0)
next
  case (Suc k)
  then have IH: "loop_upto db df q tz k = loop_upto db df' q tz k" by simp
  from Suc.prems have k: "k + 1 < length df" by simp
  have row: "df ! k = df' ! k" using pre k by simp
  have prev: "signal_prev df ! k = signal_prev df' ! k"
  proof (cases k)
    case 0
    have "0 < length df" "0 < length df'" using k len by linarith+
    then have "signal_prev df ! 0 = 0" "signal_prev df' ! 0 = 0"
      by (simp_all add: signal_prev_nth)
    with 0 show ?thesis by simp
  next
    case (Suc j)
    with pre k have j: "df ! j = df' ! j" by simp
    have "Suc j < length df" "Suc j < length df'" using Suc k len by linarith+
    then have "signal_prev df ! Suc j = signal (df ! j)"
      "signal_prev df' ! Suc j = signal (df' ! j)"
      by (simp_all add: signal_prev_nth)
    with Suc j show ?thesis by simp
  qed
  have nxt: "date (df ! (k + 1)) = date (df' ! (k + 1)) \<and> opn (df ! (k + 1)) = opn (df' ! (k + 1))"
  proof (cases "k + 2 < length df")
    case True
    with pre show ?thesis by simp
  next
    case False
    with k have e: "k + 1 = length df - 1" by simp
    have ne: "df \<noteq> []" "df' \<noteq> []" using k len by auto
    have "last df = df ! (k + 1)" "last df' = df' ! (k + 1)"
      using e len ne by (simp_all add: last_conv_nth)
    with lst show ?thesis by simp
  qed
  have "loop_body db q tz (zip df (signal_prev df)) st k =
        loop_body db q tz (zip df' (signal_prev df')) st k" for st
    using loop_body_cong [OF len k row prev] nxt by simp
  then show ?case by (simp add: loop_upto_Suc IH)
qed

lemma raw_orders_last_signal:
  "raw_orders db (xs @ [b\<lparr>signal := s\<rparr>]) q tz = raw_orders db (xs @ [b]) q tz"
proof -
  have "loop_upto db (xs @ [b\<lparr>signal := s\<rparr>]) q tz (length xs) =
        loop_upto db (xs @ [b]) q tz (length xs)"
    by (rule loop_upto_cong) (simp_all add: nth_append)
  then show ?thesis by (simp add: raw_orders_def)
qed

lemma loop_upto_all_zero:
  assumes "\<forall>i<k. signal (df ! i) = 0"
  shows "k \<le> length df - 1 \<Longrightarrow> loop_upto db df q tz k = Inr init_state"
  using assms
proof (induction k)
  case 0
  show ?case by (simp add: loop_upto_0)
next
  case (Suc k)
  then have IH: "loop_upto db df q tz k = Inr init_state" by simp
  from Suc.prems have k: "k + 1 < length df" and z: "signal (df ! k) = 0" by simp_all
  have "loop_body db q tz (zip df (signal_prev df)) init_state k = Inr init_state"
    using z by (intro loop_body_noop [OF k]) (simp_all add: init_state_def)
  then show ?case by (simp add: loop_upto_Suc IH)
qed

text \<open>
  Claim C1. In iteration \<open>k\<close> of the loop of \<^verbatim>\<open>generate_orders\<close> (bar \<open>k\<close> has a next
  bar) a position is opened exactly when \<^verbatim>\<open>signal_prev\<close> of the bar is 0, its signal is
  1 and no position is open; the entry then holds the next bar's open, the quantity and
  the timestamp \<^verbatim>\<open>_make_dt\<close> builds from the next bar's date, 09:15 and the zone, and no
  order is appended. The last bar is never the current bar: its signal does not change
  the orders, and when every earlier signal is 0 there is no order at all.
\<close>

theorem generate_orders_entry_transition:
  assumes "k + 1 < length df"
  shows "(\<exists>st st' ts.
            loop_upto db df q tz k = Inr st \<and> loop_upto db df q tz (k + 1) = Inr st' \<and>
            make_dt db (date (df ! (k + 1))) 9 15 tz = Inr ts \<and>
            ts_year ts = year (date (df ! (k + 1))) \<and>
            ts_month ts = month (date (df ! (k + 1))) \<and>
            ts_day ts = day (date (df ! (k + 1))) \<and>
            ts_hour ts = 9 \<and> ts_minute ts = 15 \<and>
            (ts_tz ts = Some tz \<or> ts_tz ts = None) \<and>
            ((position st = None \<and> position st' \<noteq> None) \<longleftrightarrow>
               (signal_prev df ! k = 0 \<and> signal (df ! k) = 1 \<and> position st = None)) \<and>
            (position st = None \<and> position st' \<noteq> None \<longrightarrow>
               position st' = Some \<lparr>oe_entry_dt = ts, oe_entry_price = opn (df ! (k + 1)),
                                     oe_qty = q\<rparr> \<and>
               orders st' = orders st) \<and>
            (position st \<noteq> None \<longrightarrow> position st' = position st \<or> position st' = None))
       \<and> signal_prev df ! k = (if k = 0 then 0 else signal (df ! (k - 1)))
       \<and> raw_orders db (xs @ [b\<lparr>signal := s\<rparr>]) q tz = raw_orders db (xs @ [b]) q tz
       \<and> ((\<forall>r \<in> set xs. signal r = 0) \<longrightarrow> raw_orders db (xs @ [b\<lparr>signal := 1\<rparr>]) q tz = Inr [])"
proof -
  from assms have "k \<le> length df - 1" by simp
  from loop_upto_total [OF this] obtain st where st: "loop_upto db df q tz k = Inr st"
    by blast
  obtain ts where ts: "make_dt db (date (df ! (k + 1))) 9 15 tz = Inr ts"
    by (simp add: make_dt_9_15)
  note f = make_dt_9_15_fields [OF ts]
  let ?out = "zip df (signal_prev df)"
  let ?c = "signal_prev df ! k = 0 \<and> signal (df ! k) = 1 \<and> position st = None"
  have step: "loop_upto db df q tz (k + 1) = loop_body db q tz ?out st k"
    using st by (simp add: loop_upto_Suc)
  have A: "\<exists>st'. loop_upto db df q tz (k + 1) = Inr st' \<and>
            ((position st = None \<and> position st' \<noteq> None) \<longleftrightarrow> ?c) \<and>
            (position st = None \<and> position st' \<noteq> None \<longrightarrow>
               position st' = Some \<lparr>oe_entry_dt = ts, oe_entry_price = opn (df ! (k + 1)),
                                     oe_qty = q\<rparr> \<and>
               orders st' = orders st) \<and>
            (position st \<noteq> None \<longrightarrow> position st' = position st \<or> position st' = None)"
  proof (cases ?c)
    case True
    then show ?thesis
      using loop_body_entry [OF assms _ _ _ ts, of st q] step by simp
  next
    case nc: False
    show ?thesis
    proof (cases "signal_prev df ! k = 1 \<and> signal (df ! k) = 0 \<and> position st \<noteq> None")
      case True
      then obtain e where e: "position st = Some e" by blast
      from True e show ?thesis
        using loop_body_exit [OF assms _ _ e ts, of q] step by simp
    next
      case False
      with nc show ?thesis
        using loop_body_noop [OF assms, of st db q tz] step by auto
    qed
  qed
  have B: "signal_prev df ! k = (if k = 0 then 0 else signal (df ! (k - 1)))"
    using assms by (simp add: signal_prev_nth)
  have D: "(\<forall>r \<in> set xs. signal r = 0) \<longrightarrow> raw_orders db (xs @ [b\<lparr>signal := 1\<rparr>]) q tz = Inr []"
  proof
    assume z: "\<forall>r \<in> set xs. signal r = 0"
    have "loop_upto db (xs @ [b\<lparr>signal := 1\<rparr>]) q tz (length xs) = Inr init_state"
      using z by (intro loop_upto_all_zero) (simp_all add: nth_append)
    then show "raw_orders db (xs @ [b\<lparr>signal := 1\<rparr>]) q tz = Inr []"
      by (simp add: raw_orders_def init_state_def)
  qed
  from A obtain st' where st': "loop_upto db df q tz (k + 1) = Inr st'"
    and rest: "((position st = None \<and> position st' \<noteq> None) \<longleftrightarrow> ?c)"
      "(position st = None \<and> position st' \<noteq> None \<longrightarrow>
               position st' = Some \<lparr>oe_entry_dt = ts, oe_entry_price = opn (df ! (k + 1)),
                                     oe_qty = q\<rparr> \<and>
               orders st' = orders st)"
      "(position st \<noteq> None \<longrightarrow> position st' = position st \<or> position st' = None)"
    by blast
  have f6: "ts_tz ts = Some tz \<or> ts_tz ts = None" using f(6) by auto
  show ?thesis
    apply (intro conjI)
       apply (rule exI [of _ st], rule exI [of _ st'], rule exI [of _ ts])
       apply (intro conjI st st' ts f(1) f(2) f(3) f(4) f(5) f6 rest)
      apply (rule B)
     apply (rule raw_orders_last_signal)
    apply (rule D)
    done
qed

theorem generate_orders_entry_transition_witness:
  "2 + 1 < length sig7 \<and>
   (\<exists>st'. loop_upto db_std sig7 5 ''UTC'' (2 + 1) = Inr st' \<and>
          position st' =
            Some \<lparr>oe_entry_dt = \<lparr>ts_year = 2024, ts_month = 1, ts_day = 4, ts_hour = 9,
                                  ts_minute = 15, ts_tz = Some ''UTC''\<rparr>,
                  oe_entry_price = 11, oe_qty = 5\<rparr> \<and>
          orders st' = [])"
proof -
  have h: "2 + 1 < length sig7" by (simp add: sig7_def)
  have s0: "loop_upto db_std sig7 5 ''UTC'' 2 = Inr init_state" by code_simp
  have c: "signal_prev sig7 ! 2 = 0" "signal (sig7 ! 2) = 1" by code_simp+
  have nx: "opn (sig7 ! (2 + 1)) = 11" by code_simp
  have m: "make_dt db_std (date (sig7 ! (2 + 1))) 9 15 ''UTC'' =
             Inr \<lparr>ts_year = 2024, ts_month = 1, ts_day = 4, ts_hour = 9,
                  ts_minute = 15, ts_tz = Some ''UTC''\<rparr>"
    by code_simp
  from generate_orders_entry_transition [OF h, of db_std 5 "''UTC''"] obtain st st' ts
    where st: "loop_upto db_std sig7 5 ''UTC'' 2 = Inr st"
      and st': "loop_upto db_std sig7 5 ''UTC'' (2 + 1) = Inr st'"
      and ts: "make_dt db_std (date (sig7 ! (2 + 1))) 9 15 ''UTC'' = Inr ts"
      and iff: "(position st = None \<and> position st' \<noteq> None) \<longleftrightarrow>
                  (signal_prev sig7 ! 2 = 0 \<and> signal (sig7 ! 2) = 1 \<and> position st = None)"
      and new: "position st = None \<and> position st' \<noteq> None \<longrightarrow>
                  position st' = Some \<lparr>oe_entry_dt = ts, oe_entry_price = opn (sig7 ! (2 + 1)),
                                        oe_qty = 5\<rparr> \<and>
                  orders st' = orders st"
    by blast
  from st s0 have i: "st = init_state" by simp
  then have "position st = None" "orders st = []" by (simp_all add: init_state_def)
  with iff c new ts m nx st' h show ?thesis by simp
qed

text \<open>
  Claim C2. When iteration \<open>k\<close> of the loop of \<^verbatim>\<open>generate_orders\<close> finds
  \<^verbatim>\<open>signal_prev\<close> 1, signal 0 and a position open, it appends one finalized record and
  leaves no position open: the exit price is the next bar's open, the exit timestamp is
  built by \<^verbatim>\<open>_make_dt\<close> from the next bar's date, 09:15 and the zone, and the P&L is
  (exit price - entry price) * quantity.
\<close>

theorem generate_orders_exit_transition:
  assumes "k + 1 < length df" and "loop_upto db df q tz k = Inr st"
    and "position st = Some e" and "signal_prev df ! k = 1" and "signal (df ! k) = 0"
  shows "\<exists>x r h. make_dt db (date (df ! (k + 1))) 9 15 tz = Inr x \<and>
           loop_upto db df q tz (k + 1) = Inr \<lparr>orders = orders st @ [r], position = None\<rparr> \<and>
           entry_dt r = CTs (oe_entry_dt e) \<and>
           entry_price r = CFloat (oe_entry_price e) \<and>
           qty r = CInt (oe_qty e) \<and>
           exit_dt r = CTs x \<and>
           exit_price r = CFloat (opn (df ! (k + 1))) \<and>
           pnl r = CFloat ((opn (df ! (k + 1)) - oe_entry_price e) * of_int (oe_qty e)) \<and>
           bars_held r = CInt h"
proof -
  obtain x where x: "make_dt db (date (df ! (k + 1))) 9 15 tz = Inr x"
    by (simp add: make_dt_9_15)
  let ?h = "timedelta_days (ts_minutes (tz_localize_None x) -
                        ts_minutes (tz_localize_None (oe_entry_dt e)))"
  let ?r = "\<lparr>entry_dt = CTs (oe_entry_dt e),
             entry_price = CFloat (oe_entry_price e),
             qty = CInt (oe_qty e),
             exit_dt = CTs x,
             exit_price = CFloat (opn (df ! (k + 1))),
             pnl = CFloat ((opn (df ! (k + 1)) - oe_entry_price e) * of_int (oe_qty e)),
             bars_held = CInt ?h\<rparr>"
  have "loop_upto db df q tz (k + 1) = loop_body db q tz (zip df (signal_prev df)) st k"
    using assms(2) by (simp add: loop_upto_Suc)
  also have "\<dots> = Inr (st\<lparr>orders := orders st @ [?r], position := None\<rparr>)"
    by (rule loop_body_exit [OF assms(1) assms(4) assms(5) assms(3) x])
  also have "st\<lparr>orders := orders st @ [?r], position := None\<rparr> =
             \<lparr>orders = orders st @ [?r], position = None\<rparr>"
    by simp
  finally have l: "loop_upto db df q tz (k + 1) =
                     Inr \<lparr>orders = orders st @ [?r], position = None\<rparr>" .
  show ?thesis
    apply (rule exI [of _ x], rule exI [of _ ?r], rule exI [of _ ?h])
    apply (intro conjI x l)
          apply simp_all
    done
qed

theorem generate_orders_exit_transition_witness:
  "4 + 1 < length sig7 \<and>
   loop_upto db_std sig7 5 ''UTC'' 4 =
     Inr \<lparr>orders = [],
          position = Some \<lparr>oe_entry_dt = \<lparr>ts_year = 2024, ts_month = 1, ts_day = 4,
                                           ts_hour = 9, ts_minute = 15, ts_tz = Some ''UTC''\<rparr>,
                           oe_entry_price = 11, oe_qty = 5\<rparr>\<rparr> \<and>
   signal_prev sig7 ! 4 = 1 \<and> signal (sig7 ! 4) = 0 \<and>
   (\<exists>r. loop_upto db_std sig7 5 ''UTC'' (4 + 1) = Inr \<lparr>orders = [r], position = None\<rparr> \<and>
        exit_price r = CFloat 9 \<and> pnl r = CFloat (- 10) \<and>
        exit_dt r = CTs \<lparr>ts_year = 2024, ts_month = 1, ts_day = 8, ts_hour = 9,
                          ts_minute = 15, ts_tz = Some ''UTC''\<rparr>)"
proof -
  let ?e = "\<lparr>oe_entry_dt = \<lparr>ts_year = 2024, ts_month = 1, ts_day = 4,
                             ts_hour = 9, ts_minute = 15, ts_tz = Some ''UTC''\<rparr>,
             oe_entry_price = 11, oe_qty = 5\<rparr>"
  let ?st = "\<lparr>orders = [], position = Some ?e\<rparr>"
  have h: "4 + 1 < length sig7" by (simp add: sig7_def)
  have s4: "loop_upto db_std sig7 5 ''UTC'' 4 = Inr ?st" by code_simp
  have p: "position ?st = Some ?e" by simp
  have c: "signal_prev sig7 ! 4 = 1" "signal (sig7 ! 4) = 0" by code_simp+
  have nx: "opn (sig7 ! (4 + 1)) = 9" by code_simp
  have m: "make_dt db_std (date (sig7 ! (4 + 1))) 9 15 ''UTC'' =
             Inr \<lparr>ts_year = 2024, ts_month = 1, ts_day = 8, ts_hour = 9,
                  ts_minute = 15, ts_tz = Some ''UTC''\<rparr>"
    by code_simp
  from generate_orders_exit_transition [OF h s4 p c] m nx
  have "\<exists>r. loop_upto db_std sig7 5 ''UTC'' (4 + 1) = Inr \<lparr>orders = [r], position = None\<rparr> \<and>
        exit_price r = CFloat 9 \<and> pnl r = CFloat (- 10) \<and>
        exit_dt r = CTs \<lparr>ts_year = 2024, ts_month = 1, ts_day = 8, ts_hour = 9,
                          ts_minute = 15, ts_tz = Some ''UTC''\<rparr>"
    by auto
  with h s4 c show ?thesis by blast
qed

section \<open>Order simulator: invariants\<close>

lemma filter_upt_Suc:
  "filter P [0..<Suc k] = filter P [0..<k] @ (if P k then [k] else [])"
  by simp

lemma transition_count:
  "k \<le> length df - 1 \<Longrightarrow>
   \<exists>st. loop_upto db df q tz k = Inr st \<and>
        length (filter (entry_taken db df q tz) [0..<k]) =
          length (filter (exit_taken db df q tz) [0..<k]) + open_count st \<and>
        length (orders st) = length (filter (exit_taken db df q tz) [0..<k])"
proof (induction k)
  case 0
  show ?case by (simp add: loop_upto_0 init_state_def open_count_def)
next
  case (Suc k)
  then obtain st where st: "loop_upto db df q tz k = Inr st"
    and cnt: "length (filter (entry_taken db df q tz) [0..<k]) =
                length (filter (exit_taken db df q tz) [0..<k]) + open_count st"
    and ord: "length (orders st) = length (filter (exit_taken db df q tz) [0..<k])"
    by auto
  from Suc.prems have k: "k + 1 < length df" by simp
  obtain ts where ts: "make_dt db (date (df ! (k + 1))) 9 15 tz = Inr ts"
    by (simp add: make_dt_9_15)
  have step: "loop_upto db df q tz (Suc k) = loop_body db q tz (zip df (signal_prev df)) st k"
    using st by (simp add: loop_upto_Suc)
  consider (entry) "signal_prev df ! k = 0 \<and> signal (df ! k) = 1 \<and> position st = None"
    | (exit) "signal_prev df ! k = 1 \<and> signal (df ! k) = 0 \<and> position st \<noteq> None"
    | (noop) "\<not> (signal_prev df ! k = 0 \<and> signal (df ! k) = 1 \<and> position st = None)"
      "\<not> (signal_prev df ! k = 1 \<and> signal (df ! k) = 0 \<and> position st \<noteq> None)"
    by blast
  then show ?case
  proof cases
    case entry
    then have e: "entry_taken db df q tz k" and x: "\<not> exit_taken db df q tz k"
      using st by (simp_all add: entry_taken_def exit_taken_def)
    from entry have "loop_upto db df q tz (Suc k) =
        Inr (st\<lparr>position := Some \<lparr>oe_entry_dt = ts, oe_entry_price = opn (df ! (k + 1)),
                                   oe_qty = q\<rparr>\<rparr>)"
      using loop_body_entry [OF k _ _ _ ts, of st q] step by simp
    moreover from entry have "open_count st = 0" by (simp add: open_count_def)
    ultimately show ?thesis
      using e x cnt ord by (simp add: open_count_def)
  next
    case exit
    then obtain en where en: "position st = Some en" by blast
    from exit have e: "\<not> entry_taken db df q tz k" and x: "exit_taken db df q tz k"
      using st by (simp_all add: entry_taken_def exit_taken_def)
    from exit en have "\<exists>r. loop_upto db df q tz (Suc k) =
        Inr (st\<lparr>orders := orders st @ [r], position := None\<rparr>)"
      using loop_body_exit [OF k _ _ en ts, of q] step by (simp del: ex_simps) blast
    moreover from en have "open_count st = 1" by (simp add: open_count_def)
    ultimately show ?thesis
      using e x cnt ord by (auto simp: open_count_def)
  next
    case noop
    then have e: "\<not> entry_taken db df q tz k" and x: "\<not> exit_taken db df q tz k"
      using st by (simp_all add: entry_taken_def exit_taken_def)
    from noop have "loop_upto db df q tz (Suc k) = Inr st"
      using loop_body_noop [OF k, of st db q tz] step by simp
    then show ?thesis
      using e x cnt ord by simp
  qed
qed

text \<open>
  Claim C3. After each iteration of the loop of \<^verbatim>\<open>generate_orders\<close> the number of
  positions opened so far exceeds the number closed so far by the number of positions
  the state holds open, which is at most one. An iteration that finds
  \<^verbatim>\<open>signal_prev\<close> 0 and signal 1 while a position is open changes nothing (no second
  position), and one that finds \<^verbatim>\<open>signal_prev\<close> 1 and signal 0 while no position is
  open changes nothing (no exit record).
\<close>

theorem at_most_one_open_position:
  assumes "k \<le> length df - 1"
  shows "\<exists>st. loop_upto db df q tz k = Inr st \<and>
           length (filter (entry_taken db df q tz) [0..<k]) =
             length (filter (exit_taken db df q tz) [0..<k]) + open_count st \<and>
           open_count st \<le> 1 \<and>
           length (orders st) = length (filter (exit_taken db df q tz) [0..<k]) \<and>
           (k + 1 < length df \<and> signal_prev df ! k = 0 \<and> signal (df ! k) = 1 \<and>
              position st \<noteq> None \<longrightarrow> loop_upto db df q tz (k + 1) = Inr st) \<and>
           (k + 1 < length df \<and> signal_prev df ! k = 1 \<and> signal (df ! k) = 0 \<and>
              position st = None \<longrightarrow> loop_upto db df q tz (k + 1) = Inr st)"
proof -
  from transition_count [OF assms] obtain st where st: "loop_upto db df q tz k = Inr st"
    and cnt: "length (filter (entry_taken db df q tz) [0..<k]) =
                length (filter (exit_taken db df q tz) [0..<k]) + open_count st"
    and ord: "length (orders st) = length (filter (exit_taken db df q tz) [0..<k])"
    by blast
  have le: "open_count st \<le> 1"
    by (simp add: open_count_def split: option.splits)
  have step: "loop_upto db df q tz (k + 1) = loop_body db q tz (zip df (signal_prev df)) st k"
    using st by (simp add: loop_upto_Suc)
  have a: "k + 1 < length df \<and> signal_prev df ! k = 0 \<and> signal (df ! k) = 1 \<and>
              position st \<noteq> None \<longrightarrow> loop_upto db df q tz (k + 1) = Inr st"
    using loop_body_noop [of k df st db q tz] step by auto
  have b: "k + 1 < length df \<and> signal_prev df ! k = 1 \<and> signal (df ! k) = 0 \<and>
              position st = None \<longrightarrow> loop_upto db df q tz (k + 1) = Inr st"
    using loop_body_noop [of k df st db q tz] step by auto
  from st cnt le ord a b show ?thesis by blast
qed

text \<open>A signal column with values other than 0 and 1, where the signal rises from 0 to
  1 a second time while the position of the first rise is still open.\<close>

theorem at_most_one_open_position_witness:
  "3 \<le> length [mk_sigbar (mk_date 2024 1 1) 10 1, mk_sigbar (mk_date 2024 1 2) 11 2,
                mk_sigbar (mk_date 2024 1 3) 12 0, mk_sigbar (mk_date 2024 1 4) 13 1,
                mk_sigbar (mk_date 2024 1 5) 14 1] - 1 \<and>
   (\<exists>st. loop_upto db_std
           [mk_sigbar (mk_date 2024 1 1) 10 1, mk_sigbar (mk_date 2024 1 2) 11 2,
            mk_sigbar (mk_date 2024 1 3) 12 0, mk_sigbar (mk_date 2024 1 4) 13 1,
            mk_sigbar (mk_date 2024 1 5) 14 1] 5 ''UTC'' 3 = Inr st \<and>
         position st \<noteq> None \<and> open_count st = 1 \<and> orders st = [] \<and>
         loop_upto db_std
           [mk_sigbar (mk_date 2024 1 1) 10 1, mk_sigbar (mk_date 2024 1 2) 11 2,
            mk_sigbar (mk_date 2024 1 3) 12 0, mk_sigbar (mk_date 2024 1 4) 13 1,
            mk_sigbar (mk_date 2024 1 5) 14 1] 5 ''UTC'' (3 + 1) = Inr st)"
proof -
  let ?df = "[mk_sigbar (mk_date 2024 1 1) 10 1, mk_sigbar (mk_date 2024 1 2) 11 2,
              mk_sigbar (mk_date 2024 1 3) 12 0, mk_sigbar (mk_date 2024 1 4) 13 1,
              mk_sigbar (mk_date 2024 1 5) 14 1]"
  have h: "3 \<le> length ?df - 1" by simp
  have c: "3 + 1 < length ?df" "signal_prev ?df ! 3 = 0" "signal (?df ! 3) = 1"
    by code_simp+
  have p: "position (projr (loop_upto db_std ?df 5 ''UTC'' 3)) \<noteq> None"
    by code_simp
  from at_most_one_open_position [OF h, of db_std 5 "''UTC''"] obtain st
    where st: "loop_upto db_std ?df 5 ''UTC'' 3 = Inr st"
      and cnt: "length (filter (entry_taken db_std ?df 5 ''UTC'') [0..<3]) =
             length (filter (exit_taken db_std ?df 5 ''UTC'') [0..<3]) + open_count st"
      and ord: "length (orders st) = length (filter (exit_taken db_std ?df 5 ''UTC'') [0..<3])"
      and le: "open_count st \<le> 1"
      and a: "3 + 1 < length ?df \<and> signal_prev ?df ! 3 = 0 \<and> signal (?df ! 3) = 1 \<and>
              position st \<noteq> None \<longrightarrow> loop_upto db_std ?df 5 ''UTC'' (3 + 1) = Inr st"
    by blast
  from p st have pos: "position st \<noteq> None" by simp
  then have oc: "open_count st = 1" by (auto simp: open_count_def)
  have ex: "length (filter (exit_taken db_std ?df 5 ''UTC'') [0..<3]) = 0"
    by code_simp
  from ord ex have o: "orders st = []" by simp
  from a c pos have "loop_upto db_std ?df 5 ''UTC'' (3 + 1) = Inr st" by blast
  with h st pos oc o show ?thesis by blast
qed

text \<open>Where the open position and the finalized records of a reachable state come
  from: the position from an iteration that took the entry branch and was followed by
  no exit, each record from an entry iteration and a later exit iteration.\<close>

lemma loop_upto_origin:
  "k \<le> length df - 1 \<Longrightarrow>
   \<exists>st. loop_upto db df q tz k = Inr st \<and>
     (\<forall>e. position st = Some e \<longrightarrow>
        (\<exists>i<k. entry_taken db df q tz i \<and> opened_entry db df q tz i = Inr e \<and>
           (\<forall>j. i < j \<and> j < k \<longrightarrow> \<not> exit_taken db df q tz j))) \<and>
     (\<forall>r \<in> set (orders st). \<exists>i j. i < j \<and> j < k \<and> closed_trade db df q tz i j = Inr r)"
  (is "_ \<Longrightarrow> \<exists>st. _ \<and> ?P k st \<and> ?O k st")
proof (induction k)
  case 0
  show ?case by (simp add: loop_upto_0 init_state_def)
next
  case (Suc k)
  then obtain st where st: "loop_upto db df q tz k = Inr st"
    and P: "?P k st" and O: "?O k st"
    by auto
  from Suc.prems have k: "k + 1 < length df" by simp
  obtain ts where ts: "make_dt db (date (df ! (k + 1))) 9 15 tz = Inr ts"
    by (simp add: make_dt_9_15)
  have step: "loop_upto db df q tz (Suc k) = loop_body db q tz (zip df (signal_prev df)) st k"
    using st by (simp add: loop_upto_Suc)
  have O_mono: "?O (Suc k) s" if "orders s = orders st" for s
    using O that less_SucI by fastforce
  consider (entry) "signal_prev df ! k = 0 \<and> signal (df ! k) = 1 \<and> position st = None"
    | (exit) "signal_prev df ! k = 1 \<and> signal (df ! k) = 0 \<and> position st \<noteq> None"
    | (noop) "\<not> (signal_prev df ! k = 0 \<and> signal (df ! k) = 1 \<and> position st = None)"
      "\<not> (signal_prev df ! k = 1 \<and> signal (df ! k) = 0 \<and> position st \<noteq> None)"
    by blast
  then show ?case
  proof cases
    case entry
    let ?s = "st\<lparr>position := Some \<lparr>oe_entry_dt = ts, oe_entry_price = opn (df ! (k + 1)),
                                     oe_qty = q\<rparr>\<rparr>"
    from entry have l: "loop_upto db df q tz (Suc k) = Inr ?s"
      using loop_body_entry [OF k _ _ _ ts, of st q] step by simp
    from entry have e: "entry_taken db df q tz k"
      using st by (simp add: entry_taken_def)
    have "?P (Suc k) ?s"
      using e ts by (auto simp: opened_entry_def)
    moreover have "?O (Suc k) ?s" by (rule O_mono) simp
    ultimately show ?thesis using l by blast
  next
    case exit
    then obtain en where en: "position st = Some en" by blast
    let ?r = "\<lparr>entry_dt = CTs (oe_entry_dt en),
                    entry_price = CFloat (oe_entry_price en),
                    qty = CInt (oe_qty en),
                    exit_dt = CTs ts,
                    exit_price = CFloat (opn (df ! (k + 1))),
                    pnl = CFloat ((opn (df ! (k + 1)) - oe_entry_price en) * of_int (oe_qty en)),
                    bars_held = CInt (timedelta_days (ts_minutes (tz_localize_None ts) -
                        ts_minutes (tz_localize_None (oe_entry_dt en))))\<rparr>"
    let ?s = "st\<lparr>orders := orders st @ [?r], position := None\<rparr>"
    from exit en have l: "loop_upto db df q tz (Suc k) = Inr ?s"
      using loop_body_exit [OF k _ _ en ts, of q] step by simp
    from P en obtain i where i: "i < k" and oe: "opened_entry db df q tz i = Inr en"
      by blast
    from oe have "closed_trade db df q tz i k = Inr ?r"
      using ts by (auto simp: opened_entry_def closed_trade_def bnd_eq_Inr_iff ts_sub_stripped)
    with i have new: "\<exists>i j. i < j \<and> j < Suc k \<and> closed_trade db df q tz i j = Inr ?r"
      by blast
    have old: "?O (Suc k) st" by (rule O_mono) simp
    have "?O (Suc k) ?s"
    proof
      fix r assume "r \<in> set (orders ?s)"
      then have "r \<in> set (orders st) \<or> r = ?r" by auto
      then show "\<exists>i j. i < j \<and> j < Suc k \<and> closed_trade db df q tz i j = Inr r"
        using old new by blast
    qed
    moreover have "?P (Suc k) ?s" by simp
    ultimately show ?thesis using l by blast
  next
    case noop
    then have x: "\<not> exit_taken db df q tz k"
      using st by (simp add: exit_taken_def)
    from noop have l: "loop_upto db df q tz (Suc k) = Inr st"
      using loop_body_noop [OF k, of st db q tz] step by simp
    have "?P (Suc k) st"
    proof (intro allI impI)
      fix e assume "position st = Some e"
      with P obtain i where i: "i < k" "entry_taken db df q tz i"
        "opened_entry db df q tz i = Inr e"
        "\<forall>j. i < j \<and> j < k \<longrightarrow> \<not> exit_taken db df q tz j"
        by blast
      have "\<forall>j. i < j \<and> j < Suc k \<longrightarrow> \<not> exit_taken db df q tz j"
        using i(4) x less_Suc_eq by auto
      with i show "\<exists>i<Suc k. entry_taken db df q tz i \<and> opened_entry db df q tz i = Inr e \<and>
           (\<forall>j. i < j \<and> j < Suc k \<longrightarrow> \<not> exit_taken db df q tz j)"
        using less_SucI by blast
    qed
    moreover have "?O (Suc k) st" by (rule O_mono) simp
    ultimately show ?thesis using l by blast
  qed
qed

section \<open>Holding duration\<close>

lemma timedelta_days_9_15:
  assumes "make_dt db dE 9 15 tz = Inr tE" and "make_dt db dX 9 15 tz = Inr tX"
  shows "timedelta_days (ts_minutes (tz_localize_None tX) -
                        ts_minutes (tz_localize_None tE)) =
           date_ordinal dX - date_ordinal dE"
proof -
  have "ts_minutes (tz_localize_None tX) = date_ordinal dX * 1440 + 555"
    using assms(2)
    by (auto simp: make_dt_9_15 ts_minutes_def ts_ordinal_def date_ordinal_def
        tz_localize_None_def)
  moreover have "ts_minutes (tz_localize_None tE) = date_ordinal dE * 1440 + 555"
    using assms(1)
    by (auto simp: make_dt_9_15 ts_minutes_def ts_ordinal_def date_ordinal_def
        tz_localize_None_def)
  ultimately have "timedelta_days (ts_minutes (tz_localize_None tX) -
                        ts_minutes (tz_localize_None tE)) =
      ((date_ordinal dX - date_ordinal dE) * 1440) div 1440"
    by (simp add: timedelta_days_def algebra_simps)
  then show ?thesis by simp
qed

lemma raw_orders_cases:
  assumes "raw_orders db df q tz = Inr os"
  obtains st where "loop_upto db df q tz (length df - 1) = Inr st"
    and "os = (case position st of None \<Rightarrow> orders st | Some e \<Rightarrow> orders st @ [open_record e])"
  using assms by (auto simp: raw_orders_def bnd_eq_Inr_iff)

lemma closed_trade_fields:
  assumes "closed_trade db df q tz i j = Inr r"
  obtains tE tX where "make_dt db (date (df ! (i + 1))) 9 15 tz = Inr tE"
    and "make_dt db (date (df ! (j + 1))) 9 15 tz = Inr tX"
    and "r = \<lparr>entry_dt = CTs tE, entry_price = CFloat (opn (df ! (i + 1))), qty = CInt q,
              exit_dt = CTs tX, exit_price = CFloat (opn (df ! (j + 1))),
              pnl = CFloat ((opn (df ! (j + 1)) - opn (df ! (i + 1))) * of_int q),
              bars_held = CInt (timedelta_days (ts_minutes (tz_localize_None tX) -
                        ts_minutes (tz_localize_None tE)))\<rparr>"
  using assms by (auto simp: closed_trade_def bnd_eq_Inr_iff ts_sub_stripped)

text \<open>
  Claim C7. Every finalized record of the orders of \<^verbatim>\<open>generate_orders\<close> was entered on
  a bar \<open>i + 1\<close> and left on a later bar \<open>j + 1\<close>. Its \<^verbatim>\<open>bars_held\<close> is \<^verbatim>\<open>.days\<close> of the
  difference of the two timestamps after \<^verbatim>\<open>tz_localize(None)\<close> has dropped their zones:
  both operands are naive, the subtraction cannot raise and is the difference of the
  wall-clock times, and the result is the difference of the day numbers of the two
  dates, not the number of bars \<open>j - i\<close>.

  The trades of \<open>week_a\<close> and \<open>week_b\<close> both span one bar and last one day and three
  days. The trade of \<open>london_df\<close> lasts five calendar days, and this is its
  \<^verbatim>\<open>bars_held\<close>, although its two localized timestamps are four days and 23 hours
  apart, whose \<^verbatim>\<open>.days\<close> is 4. The trade of \<open>leap_df\<close> lasts two days across
  2024-02-29.
\<close>

theorem bars_held_calendar_days:
  assumes "raw_orders db df q tz = Inr os" and "r \<in> set os" and "exit_dt r \<noteq> CStr ''''"
  shows "(\<exists>i j tE tX d. i < j \<and> j + 1 < length df \<and>
            make_dt db (date (df ! (i + 1))) 9 15 tz = Inr tE \<and>
            make_dt db (date (df ! (j + 1))) 9 15 tz = Inr tX \<and>
            entry_dt r = CTs tE \<and> exit_dt r = CTs tX \<and>
            ts_tz (tz_localize_None tE) = None \<and> ts_tz (tz_localize_None tX) = None \<and>
            ts_sub db (tz_localize_None tX) (tz_localize_None tE) = Inr d \<and>
            d = ts_minutes (tz_localize_None tX) - ts_minutes (tz_localize_None tE) \<and>
            bars_held r = CInt (timedelta_days d) \<and>
            bars_held r =
              CInt (date_ordinal (date (df ! (j + 1))) - date_ordinal (date (df ! (i + 1)))))
       \<and> (\<exists>ra rb. raw_orders db_std week_a 1 ''UTC'' = Inr [ra] \<and>
                  raw_orders db_std week_b 1 ''UTC'' = Inr [rb] \<and>
                  bars_held ra = CInt 1 \<and> bars_held rb = CInt 3)
       \<and> (\<exists>rl tE tX d. raw_orders db_london london_df 1 ''Europe/London'' = Inr [rl] \<and>
                  entry_dt rl = CTs tE \<and> exit_dt rl = CTs tX \<and>
                  ts_tz tE = Some ''Europe/London'' \<and> ts_tz tX = Some ''Europe/London'' \<and>
                  bars_held rl = CInt 5 \<and>
                  ts_sub db_london tX tE = Inr d \<and> d = 5 * 1440 - 60 \<and>
                  timedelta_days d = 4)
       \<and> (\<exists>rf. raw_orders db_std leap_df 1 ''Asia/Kolkata'' = Inr [rf] \<and>
                bars_held rf = CInt 2)"
proof -
  from assms(1) obtain st where st: "loop_upto db df q tz (length df - 1) = Inr st"
    and os: "os = (case position st of None \<Rightarrow> orders st
                   | Some e \<Rightarrow> orders st @ [open_record e])"
    by (rule raw_orders_cases)
  from os assms(2,3) have "r \<in> set (orders st)"
    by (auto simp: open_record_def split: option.splits)
  moreover from loop_upto_origin [of "length df - 1" df db q tz] st
  have "\<forall>r \<in> set (orders st). \<exists>i j. i < j \<and> j < length df - 1 \<and>
          closed_trade db df q tz i j = Inr r"
    by auto
  ultimately obtain i j where ij: "i < j" "j < length df - 1"
    and ct: "closed_trade db df q tz i j = Inr r"
    by blast
  from ct obtain tE tX where tE: "make_dt db (date (df ! (i + 1))) 9 15 tz = Inr tE"
    and tX: "make_dt db (date (df ! (j + 1))) 9 15 tz = Inr tX"
    and r: "r = \<lparr>entry_dt = CTs tE, entry_price = CFloat (opn (df ! (i + 1))), qty = CInt q,
              exit_dt = CTs tX, exit_price = CFloat (opn (df ! (j + 1))),
              pnl = CFloat ((opn (df ! (j + 1)) - opn (df ! (i + 1))) * of_int q),
              bars_held = CInt (timedelta_days (ts_minutes (tz_localize_None tX) -
                        ts_minutes (tz_localize_None tE)))\<rparr>"
    by (rule closed_trade_fields)
  have naive: "ts_tz (tz_localize_None t) = None" for t
    by (simp add: tz_localize_None_def)
  have A: "\<exists>i j tE tX d. i < j \<and> j + 1 < length df \<and>
            make_dt db (date (df ! (i + 1))) 9 15 tz = Inr tE \<and>
            make_dt db (date (df ! (j + 1))) 9 15 tz = Inr tX \<and>
            entry_dt r = CTs tE \<and> exit_dt r = CTs tX \<and>
            ts_tz (tz_localize_None tE) = None \<and> ts_tz (tz_localize_None tX) = None \<and>
            ts_sub db (tz_localize_None tX) (tz_localize_None tE) = Inr d \<and>
            d = ts_minutes (tz_localize_None tX) - ts_minutes (tz_localize_None tE) \<and>
            bars_held r = CInt (timedelta_days d) \<and>
            bars_held r =
              CInt (date_ordinal (date (df ! (j + 1))) - date_ordinal (date (df ! (i + 1))))"
    apply (rule exI [of _ i], rule exI [of _ j], rule exI [of _ tE], rule exI [of _ tX])
    apply (rule exI [of _ "ts_minutes (tz_localize_None tX) - ts_minutes (tz_localize_None tE)"])
    using ij tE tX r timedelta_days_9_15 [OF tE tX] naive
    by (simp add: ts_sub_stripped)
  have a: "raw_orders db_std week_a 1 ''UTC'' =
      Inr [\<lparr>entry_dt = CTs \<lparr>ts_year = 2024, ts_month = 1, ts_day = 4, ts_hour = 9,
                              ts_minute = 15, ts_tz = Some ''UTC''\<rparr>,
            entry_price = CFloat 11, qty = CInt 1,
            exit_dt = CTs \<lparr>ts_year = 2024, ts_month = 1, ts_day = 5, ts_hour = 9,
                             ts_minute = 15, ts_tz = Some ''UTC''\<rparr>,
            exit_price = CFloat 12, pnl = CFloat 1, bars_held = CInt 1\<rparr>]"
    by code_simp
  have b: "raw_orders db_std week_b 1 ''UTC'' =
      Inr [\<lparr>entry_dt = CTs \<lparr>ts_year = 2024, ts_month = 1, ts_day = 5, ts_hour = 9,
                              ts_minute = 15, ts_tz = Some ''UTC''\<rparr>,
            entry_price = CFloat 11, qty = CInt 1,
            exit_dt = CTs \<lparr>ts_year = 2024, ts_month = 1, ts_day = 8, ts_hour = 9,
                             ts_minute = 15, ts_tz = Some ''UTC''\<rparr>,
            exit_price = CFloat 12, pnl = CFloat 1, bars_held = CInt 3\<rparr>]"
    by code_simp
  from a b have B: "\<exists>ra rb. raw_orders db_std week_a 1 ''UTC'' = Inr [ra] \<and>
                  raw_orders db_std week_b 1 ''UTC'' = Inr [rb] \<and>
                  bars_held ra = CInt 1 \<and> bars_held rb = CInt 3"
    by simp
  let ?tE = "\<lparr>ts_year = 2024, ts_month = 3, ts_day = 28, ts_hour = 9, ts_minute = 15,
              ts_tz = Some ''Europe/London''\<rparr>"
  let ?tX = "\<lparr>ts_year = 2024, ts_month = 4, ts_day = 2, ts_hour = 9, ts_minute = 15,
              ts_tz = Some ''Europe/London''\<rparr>"
  let ?rl = "\<lparr>entry_dt = CTs ?tE, entry_price = CFloat 11, qty = CInt 1,
              exit_dt = CTs ?tX, exit_price = CFloat 12, pnl = CFloat 1,
              bars_held = CInt 5\<rparr>"
  have l: "raw_orders db_london london_df 1 ''Europe/London'' = Inr [?rl]"
    by code_simp
  have s: "ts_sub db_london ?tX ?tE = Inr (5 * 1440 - 60)"
    by code_simp
  have t: "timedelta_days (5 * 1440 - 60) = 4"
    by (simp add: timedelta_days_def)
  have C: "\<exists>rl tE tX d. raw_orders db_london london_df 1 ''Europe/London'' = Inr [rl] \<and>
                  entry_dt rl = CTs tE \<and> exit_dt rl = CTs tX \<and>
                  ts_tz tE = Some ''Europe/London'' \<and> ts_tz tX = Some ''Europe/London'' \<and>
                  bars_held rl = CInt 5 \<and>
                  ts_sub db_london tX tE = Inr d \<and> d = 5 * 1440 - 60 \<and>
                  timedelta_days d = 4"
    apply (rule exI [of _ ?rl], rule exI [of _ ?tE], rule exI [of _ ?tX])
    apply (rule exI [of _ "5 * 1440 - 60"])
    using l s t by simp
  have f: "raw_orders db_std leap_df 1 ''Asia/Kolkata'' =
      Inr [\<lparr>entry_dt = CTs \<lparr>ts_year = 2024, ts_month = 2, ts_day = 28, ts_hour = 9,
                              ts_minute = 15, ts_tz = Some ''Asia/Kolkata''\<rparr>,
            entry_price = CFloat 11, qty = CInt 1,
            exit_dt = CTs \<lparr>ts_year = 2024, ts_month = 3, ts_day = 1, ts_hour = 9,
                             ts_minute = 15, ts_tz = Some ''Asia/Kolkata''\<rparr>,
            exit_price = CFloat 12, pnl = CFloat 1, bars_held = CInt 2\<rparr>]"
    by code_simp
  then have D: "\<exists>rf. raw_orders db_std leap_df 1 ''Asia/Kolkata'' = Inr [rf] \<and>
                bars_held rf = CInt 2"
    by simp
  show ?thesis by (rule conjI [OF A conjI [OF B conjI [OF C D]]])
qed

text \<open>In \<open>sig7\<close> the trade is entered on Thursday 2024-01-04 (bar 3) and left on Monday
  2024-01-08 (bar 5): two bars, four days.\<close>

theorem bars_held_calendar_days_witness:
  "\<exists>r. raw_orders db_std sig7 5 ''UTC'' = Inr [r] \<and> r \<in> set [r] \<and> exit_dt r \<noteq> CStr '''' \<and>
       bars_held r = CInt 4 \<and>
       (\<exists>i j. i < j \<and> j + 1 < length sig7 \<and>
          bars_held r =
            CInt (date_ordinal (date (sig7 ! (j + 1))) - date_ordinal (date (sig7 ! (i + 1)))))"
proof -
  let ?r = "\<lparr>entry_dt = CTs \<lparr>ts_year = 2024, ts_month = 1, ts_day = 4, ts_hour = 9,
                              ts_minute = 15, ts_tz = Some ''UTC''\<rparr>,
            entry_price = CFloat 11, qty = CInt 5,
            exit_dt = CTs \<lparr>ts_year = 2024, ts_month = 1, ts_day = 8, ts_hour = 9,
                             ts_minute = 15, ts_tz = Some ''UTC''\<rparr>,
            exit_price = CFloat 9, pnl = CFloat (- 10), bars_held = CInt 4\<rparr>"
  have ro: "raw_orders db_std sig7 5 ''UTC'' = Inr [?r]" by code_simp
  have m: "?r \<in> set [?r]" by simp
  have x: "exit_dt ?r \<noteq> CStr ''''" by simp
  from bars_held_calendar_days [OF ro m x]
  have "\<exists>i j. i < j \<and> j + 1 < length sig7 \<and>
          bars_held ?r =
            CInt (date_ordinal (date (sig7 ! (j + 1))) - date_ordinal (date (sig7 ! (i + 1))))"
    by blast
  with ro show ?thesis by simp
qed

section \<open>The ledger of an empty order list\<close>

lemma col_pos_entry_dt: "col_pos OUTPUT_COLS ''entry_dt'' = Some 0"
  by (simp add: OUTPUT_COLS_def)

lemma col_pos_exit_dt: "col_pos OUTPUT_COLS ''exit_dt'' = Some 3"
  by (simp add: OUTPUT_COLS_def)

lemma format_col_no_rows:
  "format_col \<lparr>columns = cs, rows = []\<rparr> c = \<lparr>columns = cs, rows = []\<rparr>"
  by (simp add: format_col_def get_col_def set_col_def has_dtype_tz_def to_datetime_def
      mixed_tz_def split: option.splits)

lemma generate_orders_no_orders:
  assumes "raw_orders db df q tz = Inr []"
  shows "generate_orders db df q tz = Inr \<lparr>columns = OUTPUT_COLS, rows = []\<rparr>"
  using assms by (simp add: generate_orders_def DataFrame_def format_col_no_rows)

lemma raw_orders_all_zero:
  assumes "\<forall>r \<in> set df. signal r = 0"
  shows "raw_orders db df q tz = Inr []"
proof -
  have "loop_upto db df q tz (length df - 1) = Inr init_state"
  proof (rule loop_upto_all_zero)
    show "\<forall>i<length df - 1. signal (df ! i) = 0" using assms by simp
  qed simp
  then show ?thesis by (simp add: raw_orders_def init_state_def)
qed

lemma short_series_flat:
  assumes "length df < slow"
  shows "\<forall>r \<in> set (compute_sma_signals rm df fast slow). signal r = 0"
proof
  fix r assume "r \<in> set (compute_sma_signals rm df fast slow)"
  then obtain i where i: "i < length df" and r: "r = compute_sma_signals rm df fast slow ! i"
    by (auto simp: in_set_conv_nth length_compute_sma_signals)
  from i assms have "rolling_mean_at rm slow (map close df) i = None"
    by (simp add: rolling_mean_at_def)
  with i r show "signal r = 0"
    by (simp add: compute_sma_signals_nth signal_with_signal astype_int_def gt_nan_iff)
qed

text \<open>
  Claim C9. A series with fewer bars than the slow window gets signal 0 on every bar,
  and for a series whose signals are all 0 \<^verbatim>\<open>generate_orders\<close> raises nothing and
  returns the ledger with its seven columns and no row; so it does for the signals of
  a series shorter than the slow window.
\<close>

theorem degenerate_series_no_trades:
  "(length bars < slow \<longrightarrow>
      (\<forall>r \<in> set (compute_sma_signals rm bars fast slow). signal r = 0) \<and>
      generate_orders db (compute_sma_signals rm bars fast slow) q tz =
        Inr \<lparr>columns = OUTPUT_COLS, rows = []\<rparr>)
   \<and> ((\<forall>r \<in> set df. signal r = 0) \<longrightarrow>
      generate_orders db df q tz = Inr \<lparr>columns = OUTPUT_COLS, rows = []\<rparr>)"
proof -
  have b: "generate_orders db df q tz = Inr \<lparr>columns = OUTPUT_COLS, rows = []\<rparr>"
    if "\<forall>r \<in> set df. signal r = 0" for df
    using that by (intro generate_orders_no_orders raw_orders_all_zero)
  show ?thesis using b short_series_flat by blast
qed

theorem degenerate_series_no_trades_witness:
  "length bars6 < 7 \<and>
   map signal (compute_sma_signals exact_mean bars6 2 7) = [0, 0, 0, 0, 0, 0] \<and>
   generate_orders db_std (compute_sma_signals exact_mean bars6 2 7) 5 ''Asia/Kolkata'' =
     Inr \<lparr>columns = OUTPUT_COLS, rows = []\<rparr> \<and>
   map signal (take 2 sig7) = [0, 0] \<and>
   generate_orders db_std (take 2 sig7) 5 ''Asia/Kolkata'' =
     Inr \<lparr>columns = OUTPUT_COLS, rows = []\<rparr>"
proof -
  have h: "length bars6 < 7" by (simp add: bars6_def)
  have m: "map signal (take 2 sig7) = [0, 0]"
    by (simp add: sig7_def mk_sigbar_def)
  have z: "\<forall>r \<in> set (take 2 sig7). signal r = 0"
    by (simp add: sig7_def mk_sigbar_def)
  have s: "map signal (compute_sma_signals exact_mean bars6 2 7) = [0, 0, 0, 0, 0, 0]" by code_simp
  from degenerate_series_no_trades [where bars = bars6 and slow = 7 and rm = exact_mean
      and fast = 2 and db = db_std and q = 5 and tz = "''Asia/Kolkata''" and df = "take 2 sig7"] h z s m
  show ?thesis by blast
qed

section \<open>Formatted timestamps\<close>

lemma strftime_zone_free: "strftime (tz_localize_None t) = strftime t"
  by (simp add: strftime_def tz_localize_None_def)

section \<open>Formatting a column\<close>

lemma fmt_cell_CTs [simp]: "fmt_cell (CTs t) = CStr (strftime t)"
  by (simp add: fmt_cell_def)

lemma fmt_cell_empty [simp]: "fmt_cell (CStr []) = CNaN"
  by (simp add: fmt_cell_def)

lemma map_res_to_datetime:
  "list_all dt_cell cells \<Longrightarrow>
   \<exists>ds. map_res to_datetime_cell cells = Inr ds \<and> map strftime_opt ds = map fmt_cell cells"
proof (induction cells)
  case Nil
  show ?case by simp
next
  case (Cons c cells)
  then obtain ds where ds: "map_res to_datetime_cell cells = Inr ds"
    "map strftime_opt ds = map fmt_cell cells"
    by auto
  from Cons.prems have "dt_cell c" by simp
  then show ?case using ds by (cases c) (simp_all add: fmt_cell_def)
qed

lemma strftime_local_in_zone:
  "list_all (in_zone z) cells \<Longrightarrow> map strftime_local cells = map fmt_cell cells"
proof (induction cells)
  case Nil
  show ?case by simp
next
  case (Cons c cells)
  then show ?case by (cases c) (simp_all add: strftime_zone_free)
qed

lemma in_zone_not_mixed: "list_all (in_zone z) cells \<Longrightarrow> \<not> mixed_tz cells"
proof -
  assume a: "list_all (in_zone z) cells"
  have "\<not> is_naive c" if "in_zone z c" for c
    using that by (cases c) simp_all
  with a have "\<not> list_ex is_naive cells"
    by (auto simp: list_all_iff list_ex_iff)
  then show ?thesis by (simp add: mixed_tz_def)
qed

lemma set_col_map:
  assumes "col_pos (columns f) c = Some j"
  shows "set_col f c (map g (map (\<lambda>r. r ! j) (rows f))) =
           f\<lparr>rows := map (\<lambda>r. r[j := g (r ! j)]) (rows f)\<rparr>"
proof -
  have "map (\<lambda>(r, v). r[j := v]) (zip rs (map g (map (\<lambda>r. r ! j) rs))) =
        map (\<lambda>r. r[j := g (r ! j)]) rs" for rs :: "cell list list"
    by (induction rs) simp_all
  then show ?thesis using assms by (simp add: set_col_def)
qed

lemma format_col_dt:
  assumes pos: "col_pos (columns f) c = Some j"
    and dt: "list_all dt_cell (map (\<lambda>r. r ! j) (rows f))"
  shows "format_col f c =
           (if mixed_tz (map (\<lambda>r. r ! j) (rows f)) then f
            else f\<lparr>rows := map (\<lambda>r. r[j := fmt_cell (r ! j)]) (rows f)\<rparr>)"
proof -
  let ?cells = "map (\<lambda>r. r ! j) (rows f)"
  have g: "get_col f c = Inr ?cells" using pos by (simp add: get_col_def)
  show ?thesis
  proof (cases "has_dtype_tz ''Asia/Kolkata'' ?cells")
    case True
    then have z: "list_all (in_zone ''Asia/Kolkata'') ?cells" by (simp add: has_dtype_tz_def)
    have "format_col f c = set_col f c (map strftime_local ?cells)"
      using g True by (simp add: format_col_def)
    also have "\<dots> = set_col f c (map fmt_cell ?cells)"
      by (simp only: strftime_local_in_zone [OF z])
    also have "\<dots> = f\<lparr>rows := map (\<lambda>r. r[j := fmt_cell (r ! j)]) (rows f)\<rparr>"
      by (rule set_col_map [OF pos])
    finally show ?thesis using in_zone_not_mixed [OF z] by simp
  next
    case False
    show ?thesis
    proof (cases "mixed_tz ?cells")
      case True
      then show ?thesis using g False by (simp add: format_col_def to_datetime_def)
    next
      case nm: False
      from map_res_to_datetime [OF dt] obtain ds
        where ds: "map_res to_datetime_cell ?cells = Inr ds"
          "map strftime_opt ds = map fmt_cell ?cells"
        by blast
      have "format_col f c = set_col f c (map strftime_opt ds)"
        using g False nm ds(1) by (simp add: format_col_def to_datetime_def)
      also have "\<dots> = set_col f c (map fmt_cell ?cells)" by (simp only: ds(2))
      also have "\<dots> = f\<lparr>rows := map (\<lambda>r. r[j := fmt_cell (r ! j)]) (rows f)\<rparr>"
        by (rule set_col_map [OF pos])
      finally show ?thesis using nm by simp
    qed
  qed
qed

lemma DataFrame_OUTPUT_COLS:
  "DataFrame os OUTPUT_COLS = \<lparr>columns = OUTPUT_COLS, rows = map (ledger_row id id) os\<rparr>"
  by (simp add: DataFrame_def OUTPUT_COLS_def order_get_def ledger_row_def)

lemma format_ledger:
  assumes "list_all dt_cell (map entry_dt os)" and "list_all dt_cell (map exit_dt os)"
  shows "foldl format_col (DataFrame os OUTPUT_COLS) [''entry_dt'', ''exit_dt''] =
           \<lparr>columns = OUTPUT_COLS,
            rows = map (ledger_row (if mixed_tz (map entry_dt os) then id else fmt_cell)
                                   (if mixed_tz (map exit_dt os) then id else fmt_cell)) os\<rparr>"
proof -
  let ?gE = "if mixed_tz (map entry_dt os) then id else fmt_cell"
  let ?gX = "if mixed_tz (map exit_dt os) then id else fmt_cell"
  let ?f0 = "\<lparr>columns = OUTPUT_COLS, rows = map (ledger_row id id) os\<rparr>"
  let ?f1 = "\<lparr>columns = OUTPUT_COLS, rows = map (ledger_row ?gE id) os\<rparr>"
  let ?f2 = "\<lparr>columns = OUTPUT_COLS, rows = map (ledger_row ?gE ?gX) os\<rparr>"
  have c0: "map (\<lambda>r. r ! 0) (rows ?f0) = map entry_dt os"
    by (simp add: ledger_row_def comp_def)
  have c3: "map (\<lambda>r. r ! 3) (rows ?f1) = map exit_dt os"
    by (simp add: ledger_row_def comp_def)
  have s1: "format_col ?f0 ''entry_dt'' = ?f1"
  proof -
    have p: "col_pos (columns ?f0) ''entry_dt'' = Some 0" by (simp add: col_pos_entry_dt)
    have d: "list_all dt_cell (map (\<lambda>r. r ! 0) (rows ?f0))"
      unfolding c0 by (rule assms(1))
    show ?thesis
      unfolding format_col_dt [OF p d] c0
      by (simp add: ledger_row_def comp_def)
  qed
  have s2: "format_col ?f1 ''exit_dt'' = ?f2"
  proof -
    have p: "col_pos (columns ?f1) ''exit_dt'' = Some 3" by (simp add: col_pos_exit_dt)
    have d: "list_all dt_cell (map (\<lambda>r. r ! 3) (rows ?f1))"
      unfolding c3 by (rule assms(2))
    show ?thesis
      unfolding format_col_dt [OF p d] c3
      by (simp add: ledger_row_def comp_def)
  qed
  show ?thesis by (simp add: DataFrame_OUTPUT_COLS s1 s2)
qed

section \<open>The records of the order list\<close>

lemma open_record_simps [simp]:
  "entry_dt (open_record e) = CTs (oe_entry_dt e)"
  "entry_price (open_record e) = CFloat (oe_entry_price e)"
  "qty (open_record e) = CInt (oe_qty e)"
  "exit_dt (open_record e) = CStr ''''"
  "exit_price (open_record e) = CStr ''''"
  "pnl (open_record e) = CStr ''''"
  "bars_held (open_record e) = CStr ''''"
  by (simp_all add: open_record_def)

lemma opened_entry_fields:
  assumes "opened_entry db df q tz i = Inr e"
  shows "make_dt db (date (df ! (i + 1))) 9 15 tz = Inr (oe_entry_dt e)"
    and "oe_entry_price e = opn (df ! (i + 1))" and "oe_qty e = q"
  using assms by (auto simp: opened_entry_def bnd_eq_Inr_iff)

text \<open>Every record of the order list is a closed trade of two iterations, or it is the
  record of the position left open by an iteration.\<close>

lemma raw_orders_records:
  assumes "raw_orders db df q tz = Inr os" and "r \<in> set os"
  shows "(\<exists>i j. i < j \<and> j + 1 < length df \<and> closed_trade db df q tz i j = Inr r) \<or>
         (\<exists>i e. i + 1 < length df \<and> opened_entry db df q tz i = Inr e \<and> r = open_record e)"
proof -
  from assms(1) obtain st where st: "loop_upto db df q tz (length df - 1) = Inr st"
    and os: "os = (case position st of None \<Rightarrow> orders st
                   | Some e \<Rightarrow> orders st @ [open_record e])"
    by (rule raw_orders_cases)
  from loop_upto_origin [of "length df - 1" df db q tz] st
  have P: "\<forall>e. position st = Some e \<longrightarrow>
        (\<exists>i<length df - 1. entry_taken db df q tz i \<and> opened_entry db df q tz i = Inr e \<and>
           (\<forall>j. i < j \<and> j < length df - 1 \<longrightarrow> \<not> exit_taken db df q tz j))"
    and O: "\<forall>r \<in> set (orders st). \<exists>i j. i < j \<and> j < length df - 1 \<and>
          closed_trade db df q tz i j = Inr r"
    by auto
  from os assms(2) consider (closed) "r \<in> set (orders st)"
    | (opened) e where "position st = Some e" "r = open_record e"
    by (auto split: option.splits)
  then show ?thesis
  proof cases
    case closed
    with O obtain i j where "i < j" "j < length df - 1" "closed_trade db df q tz i j = Inr r"
      by blast
    then have "i < j \<and> j + 1 < length df \<and> closed_trade db df q tz i j = Inr r" by simp
    then show ?thesis by blast
  next
    case opened
    with P obtain i where "i < length df - 1" "opened_entry db df q tz i = Inr e" by blast
    then have "i + 1 < length df \<and> opened_entry db df q tz i = Inr e \<and> r = open_record e"
      using opened by simp
    then show ?thesis by blast
  qed
qed

text \<open>The cells of the two timestamp columns: every timestamp is built by
  \<^verbatim>\<open>_make_dt\<close> from the date of a bar, and only \<^verbatim>\<open>exit_dt\<close> can be the empty string.\<close>

lemma raw_orders_stamps:
  assumes "raw_orders db df q tz = Inr os" and "r \<in> set os"
  shows "\<exists>b \<in> set df. \<exists>t. make_dt db (date b) 9 15 tz = Inr t \<and> entry_dt r = CTs t"
    and "exit_dt r = CStr '''' \<or>
         (\<exists>b \<in> set df. \<exists>t. make_dt db (date b) 9 15 tz = Inr t \<and> exit_dt r = CTs t)"
proof -
  from raw_orders_records [OF assms]
  consider (closed) i j where "i < j" "j + 1 < length df" "closed_trade db df q tz i j = Inr r"
    | (opened) i e where "i + 1 < length df" "opened_entry db df q tz i = Inr e"
      "r = open_record e"
    by blast
  then have "(\<exists>b \<in> set df. \<exists>t. make_dt db (date b) 9 15 tz = Inr t \<and> entry_dt r = CTs t) \<and>
    (exit_dt r = CStr '''' \<or>
         (\<exists>b \<in> set df. \<exists>t. make_dt db (date b) 9 15 tz = Inr t \<and> exit_dt r = CTs t))"
  proof cases
    case closed
    from closed(3) obtain tE tX where tE: "make_dt db (date (df ! (i + 1))) 9 15 tz = Inr tE"
      and tX: "make_dt db (date (df ! (j + 1))) 9 15 tz = Inr tX"
      and r: "r = \<lparr>entry_dt = CTs tE, entry_price = CFloat (opn (df ! (i + 1))), qty = CInt q,
              exit_dt = CTs tX, exit_price = CFloat (opn (df ! (j + 1))),
              pnl = CFloat ((opn (df ! (j + 1)) - opn (df ! (i + 1))) * of_int q),
              bars_held = CInt (timedelta_days (ts_minutes (tz_localize_None tX) -
                        ts_minutes (tz_localize_None tE)))\<rparr>"
      by (rule closed_trade_fields)
    have "df ! (i + 1) \<in> set df" "df ! (j + 1) \<in> set df"
      using closed(1,2) by (simp_all del: One_nat_def)
    with tE tX r show ?thesis by auto
  next
    case opened
    have "df ! (i + 1) \<in> set df" using opened(1) by (simp del: One_nat_def)
    with opened opened_entry_fields(1) [OF opened(2)] show ?thesis by auto
  qed
  then show "\<exists>b \<in> set df. \<exists>t. make_dt db (date b) 9 15 tz = Inr t \<and> entry_dt r = CTs t"
    and "exit_dt r = CStr '''' \<or>
         (\<exists>b \<in> set df. \<exists>t. make_dt db (date b) 9 15 tz = Inr t \<and> exit_dt r = CTs t)"
    by blast+
qed

lemma raw_orders_dt_cells:
  assumes "raw_orders db df q tz = Inr os"
  shows "list_all dt_cell (map entry_dt os)" and "list_all dt_cell (map exit_dt os)"
proof -
  have "dt_cell (entry_dt r) \<and> dt_cell (exit_dt r)" if "r \<in> set os" for r
    using raw_orders_stamps [OF assms that] by auto
  then show "list_all dt_cell (map entry_dt os)" and "list_all dt_cell (map exit_dt os)"
    by (auto simp: list_all_iff)
qed

lemma raw_orders_total: "\<exists>os. raw_orders db df q tz = Inr os"
  using loop_upto_total [of "length df - 1" df db q tz] by (auto simp: raw_orders_def)

lemma generate_orders_rows:
  assumes "raw_orders db df q tz = Inr os"
  shows "generate_orders db df q tz =
           Inr \<lparr>columns = OUTPUT_COLS,
                rows = map (ledger_row (if mixed_tz (map entry_dt os) then id else fmt_cell)
                                       (if mixed_tz (map exit_dt os) then id else fmt_cell)) os\<rparr>"
  using assms format_ledger [OF raw_orders_dt_cells [OF assms]]
  by (simp add: generate_orders_def)

section \<open>The end of the series\<close>

lemma strftime_not_empty: "strftime t \<noteq> []"
  by (simp add: strftime_def)

lemma ledger_row_nth:
  "ledger_row gE gX r ! 0 = gE (entry_dt r)" "ledger_row gE gX r ! 1 = entry_price r"
  "ledger_row gE gX r ! 2 = qty r" "ledger_row gE gX r ! 3 = gX (exit_dt r)"
  "ledger_row gE gX r ! 4 = exit_price r" "ledger_row gE gX r ! 5 = pnl r"
  "ledger_row gE gX r ! 6 = bars_held r" "length (ledger_row gE gX r) = 7"
  by (simp_all add: ledger_row_def)

lemma closed_trade_finalized:
  assumes "closed_trade db df q tz i j = Inr r"
  shows "\<exists>tX p v h. exit_dt r = CTs tX \<and> exit_price r = CFloat p \<and> pnl r = CFloat v \<and>
           bars_held r = CInt h"
  using assms by (auto simp: closed_trade_def bnd_eq_Inr_iff ts_sub_stripped)

text \<open>
  Claim C5. When the loop of \<^verbatim>\<open>generate_orders\<close> ends with a position open, the order
  list is the finalized records followed by exactly one record for that position, whose
  exit timestamp, exit price, P&L and duration are the empty string: nothing is closed.
  The position is the one opened by an iteration that took the entry branch and was
  followed by no iteration taking the exit branch. In the ledger the record is the
  last row and its four exit cells are empty, while no earlier row has an empty exit
  timestamp. When the loop ends with no position open, no such record is appended.
\<close>

theorem open_position_flushed:
  assumes "loop_upto db df q tz (length df - 1) = Inr st"
  shows "(position st = None \<longrightarrow> raw_orders db df q tz = Inr (orders st))
    \<and> (\<forall>r \<in> set (orders st). \<exists>tX p v h. exit_dt r = CTs tX \<and> exit_price r = CFloat p \<and>
           pnl r = CFloat v \<and> bars_held r = CInt h)
    \<and> (\<forall>e. position st = Some e \<longrightarrow>
          raw_orders db df q tz = Inr (orders st @ [open_record e]) \<and>
          entry_dt (open_record e) = CTs (oe_entry_dt e) \<and>
          entry_price (open_record e) = CFloat (oe_entry_price e) \<and>
          qty (open_record e) = CInt (oe_qty e) \<and>
          exit_dt (open_record e) = CStr '''' \<and> exit_price (open_record e) = CStr '''' \<and>
          pnl (open_record e) = CStr '''' \<and> bars_held (open_record e) = CStr '''' \<and>
          (\<exists>i. i + 1 < length df \<and> entry_taken db df q tz i \<and>
               opened_entry db df q tz i = Inr e \<and>
               (\<forall>j. i < j \<and> j + 1 < length df \<longrightarrow> \<not> exit_taken db df q tz j)) \<and>
          (\<exists>f. generate_orders db df q tz = Inr f \<and>
               length (rows f) = length (orders st) + 1 \<and>
               is_blank (last (rows f) ! 3) \<and> is_blank (last (rows f) ! 4) \<and>
               is_blank (last (rows f) ! 5) \<and> is_blank (last (rows f) ! 6) \<and>
               (\<forall>n < length (orders st). \<not> is_blank (rows f ! n ! 3))))"
proof -
  from loop_upto_origin [of "length df - 1" df db q tz] assms
  have P: "\<forall>e. position st = Some e \<longrightarrow>
        (\<exists>i<length df - 1. entry_taken db df q tz i \<and> opened_entry db df q tz i = Inr e \<and>
           (\<forall>j. i < j \<and> j < length df - 1 \<longrightarrow> \<not> exit_taken db df q tz j))"
    and O: "\<forall>r \<in> set (orders st). \<exists>i j. i < j \<and> j < length df - 1 \<and>
          closed_trade db df q tz i j = Inr r"
    by auto
  have A: "position st = None \<longrightarrow> raw_orders db df q tz = Inr (orders st)"
    using assms by (simp add: raw_orders_def)
  have B: "\<forall>r \<in> set (orders st). \<exists>tX p v h. exit_dt r = CTs tX \<and> exit_price r = CFloat p \<and>
           pnl r = CFloat v \<and> bars_held r = CInt h"
    using O closed_trade_finalized by blast
  have C: "\<forall>e. position st = Some e \<longrightarrow>
          raw_orders db df q tz = Inr (orders st @ [open_record e]) \<and>
          entry_dt (open_record e) = CTs (oe_entry_dt e) \<and>
          entry_price (open_record e) = CFloat (oe_entry_price e) \<and>
          qty (open_record e) = CInt (oe_qty e) \<and>
          exit_dt (open_record e) = CStr '''' \<and> exit_price (open_record e) = CStr '''' \<and>
          pnl (open_record e) = CStr '''' \<and> bars_held (open_record e) = CStr '''' \<and>
          (\<exists>i. i + 1 < length df \<and> entry_taken db df q tz i \<and>
               opened_entry db df q tz i = Inr e \<and>
               (\<forall>j. i < j \<and> j + 1 < length df \<longrightarrow> \<not> exit_taken db df q tz j)) \<and>
          (\<exists>f. generate_orders db df q tz = Inr f \<and>
               length (rows f) = length (orders st) + 1 \<and>
               is_blank (last (rows f) ! 3) \<and> is_blank (last (rows f) ! 4) \<and>
               is_blank (last (rows f) ! 5) \<and> is_blank (last (rows f) ! 6) \<and>
               (\<forall>n < length (orders st). \<not> is_blank (rows f ! n ! 3)))"
  proof (intro allI impI)
    fix e assume e: "position st = Some e"
    let ?os = "orders st @ [open_record e]"
    let ?gE = "if mixed_tz (map entry_dt ?os) then id else fmt_cell"
    let ?gX = "if mixed_tz (map exit_dt ?os) then id else fmt_cell"
    let ?f = "\<lparr>columns = OUTPUT_COLS, rows = map (ledger_row ?gE ?gX) ?os\<rparr>"
    have ro: "raw_orders db df q tz = Inr ?os"
      using assms e by (simp add: raw_orders_def)
    from P e obtain i where i: "i < length df - 1" "entry_taken db df q tz i"
      "opened_entry db df q tz i = Inr e"
      "\<forall>j. i < j \<and> j < length df - 1 \<longrightarrow> \<not> exit_taken db df q tz j"
      by blast
    have org: "\<exists>i. i + 1 < length df \<and> entry_taken db df q tz i \<and>
               opened_entry db df q tz i = Inr e \<and>
               (\<forall>j. i < j \<and> j + 1 < length df \<longrightarrow> \<not> exit_taken db df q tz j)"
    proof (intro exI [of _ i] conjI allI impI)
      show "i + 1 < length df" using i(1) by simp
      show "entry_taken db df q tz i" by (rule i(2))
      show "opened_entry db df q tz i = Inr e" by (rule i(3))
      fix j assume "i < j \<and> j + 1 < length df"
      then have "i < j \<and> j < length df - 1" by auto
      with i(4) show "\<not> exit_taken db df q tz j" by blast
    qed
    have g: "generate_orders db df q tz = Inr ?f"
      by (rule generate_orders_rows [OF ro])
    have len: "length (rows ?f) = length (orders st) + 1" by simp
    have lst: "last (rows ?f) = ledger_row ?gE ?gX (open_record e)"
      by (simp add: last_map)
    have b3: "is_blank (last (rows ?f) ! 3)"
      unfolding lst ledger_row_nth
      by (cases "mixed_tz (map exit_dt ?os)") simp_all
    have b4: "is_blank (last (rows ?f) ! 4)"
      unfolding lst ledger_row_nth by simp
    have b5: "is_blank (last (rows ?f) ! 5)"
      unfolding lst ledger_row_nth by simp
    have b6: "is_blank (last (rows ?f) ! 6)"
      unfolding lst ledger_row_nth by simp
    have nb: "\<not> is_blank (rows ?f ! n ! 3)" if n: "n < length (orders st)" for n
    proof -
      have r: "rows ?f ! n = ledger_row ?gE ?gX (orders st ! n)"
        using n by (simp add: nth_append)
      from n have "orders st ! n \<in> set (orders st)" by simp
      with B obtain tX where x: "exit_dt (orders st ! n) = CTs tX" by blast
      show ?thesis
        unfolding r ledger_row_nth x
        by (cases "mixed_tz (map exit_dt ?os)") (simp_all add: strftime_not_empty)
    qed
    have led: "\<exists>f. generate_orders db df q tz = Inr f \<and>
               length (rows f) = length (orders st) + 1 \<and>
               is_blank (last (rows f) ! 3) \<and> is_blank (last (rows f) ! 4) \<and>
               is_blank (last (rows f) ! 5) \<and> is_blank (last (rows f) ! 6) \<and>
               (\<forall>n < length (orders st). \<not> is_blank (rows f ! n ! 3))"
      by (rule exI [of _ ?f]) (intro conjI g len b3 b4 b5 b6 allI impI nb)
    show "raw_orders db df q tz = Inr (orders st @ [open_record e]) \<and>
          entry_dt (open_record e) = CTs (oe_entry_dt e) \<and>
          entry_price (open_record e) = CFloat (oe_entry_price e) \<and>
          qty (open_record e) = CInt (oe_qty e) \<and>
          exit_dt (open_record e) = CStr '''' \<and> exit_price (open_record e) = CStr '''' \<and>
          pnl (open_record e) = CStr '''' \<and> bars_held (open_record e) = CStr '''' \<and>
          (\<exists>i. i + 1 < length df \<and> entry_taken db df q tz i \<and>
               opened_entry db df q tz i = Inr e \<and>
               (\<forall>j. i < j \<and> j + 1 < length df \<longrightarrow> \<not> exit_taken db df q tz j)) \<and>
          (\<exists>f. generate_orders db df q tz = Inr f \<and>
               length (rows f) = length (orders st) + 1 \<and>
               is_blank (last (rows f) ! 3) \<and> is_blank (last (rows f) ! 4) \<and>
               is_blank (last (rows f) ! 5) \<and> is_blank (last (rows f) ! 6) \<and>
               (\<forall>n < length (orders st). \<not> is_blank (rows f ! n ! 3)))"
      by (intro conjI ro org led open_record_simps)
  qed
  show ?thesis
    by (rule conjI [OF A conjI [OF B C]])
qed

text \<open>In \<open>sig7\<close> with two more bars the signal rises again on the last bar but one:
  one finalized trade, then the open record.\<close>

theorem open_position_flushed_witness:
  "\<exists>st r e f. loop_upto db_std (sig7 @ [mk_sigbar (mk_date 2024 1 10) 9 1,
                  mk_sigbar (mk_date 2024 1 11) 8 1]) 5 ''UTC''
               (length (sig7 @ [mk_sigbar (mk_date 2024 1 10) 9 1,
                  mk_sigbar (mk_date 2024 1 11) 8 1]) - 1) = Inr st \<and>
     orders st = [r] \<and> position st = Some e \<and> oe_entry_price e = 8 \<and>
     raw_orders db_std (sig7 @ [mk_sigbar (mk_date 2024 1 10) 9 1,
                  mk_sigbar (mk_date 2024 1 11) 8 1]) 5 ''UTC'' = Inr [r, open_record e] \<and>
     generate_orders db_std (sig7 @ [mk_sigbar (mk_date 2024 1 10) 9 1,
                  mk_sigbar (mk_date 2024 1 11) 8 1]) 5 ''UTC'' = Inr f \<and>
     length (rows f) = 2 \<and> is_blank (last (rows f) ! 3) \<and> \<not> is_blank (rows f ! 0 ! 3)"
proof -
  let ?df = "sig7 @ [mk_sigbar (mk_date 2024 1 10) 9 1, mk_sigbar (mk_date 2024 1 11) 8 1]"
  let ?r = "\<lparr>entry_dt = CTs \<lparr>ts_year = 2024, ts_month = 1, ts_day = 4, ts_hour = 9,
                              ts_minute = 15, ts_tz = Some ''UTC''\<rparr>,
            entry_price = CFloat 11, qty = CInt 5,
            exit_dt = CTs \<lparr>ts_year = 2024, ts_month = 1, ts_day = 8, ts_hour = 9,
                             ts_minute = 15, ts_tz = Some ''UTC''\<rparr>,
            exit_price = CFloat 9, pnl = CFloat (- 10), bars_held = CInt 4\<rparr>"
  let ?e = "\<lparr>oe_entry_dt = \<lparr>ts_year = 2024, ts_month = 1, ts_day = 11, ts_hour = 9,
                             ts_minute = 15, ts_tz = Some ''UTC''\<rparr>,
             oe_entry_price = 8, oe_qty = 5\<rparr>"
  let ?st = "\<lparr>orders = [?r], position = Some ?e\<rparr>"
  have l: "loop_upto db_std ?df 5 ''UTC'' (length ?df - 1) = Inr ?st" by code_simp
  from open_position_flushed [OF l]
  have ro: "raw_orders db_std ?df 5 ''UTC'' = Inr (orders ?st @ [open_record ?e])"
    and "\<exists>f. generate_orders db_std ?df 5 ''UTC'' = Inr f \<and>
               length (rows f) = length (orders ?st) + 1 \<and>
               is_blank (last (rows f) ! 3) \<and> is_blank (last (rows f) ! 4) \<and>
               is_blank (last (rows f) ! 5) \<and> is_blank (last (rows f) ! 6) \<and>
               (\<forall>n < length (orders ?st). \<not> is_blank (rows f ! n ! 3))"
    by simp_all
  then obtain f where f: "generate_orders db_std ?df 5 ''UTC'' = Inr f"
    "length (rows f) = 2" "is_blank (last (rows f) ! 3)" "\<not> is_blank (rows f ! 0 ! 3)"
    by auto
  show ?thesis
    apply (rule exI [of _ ?st], rule exI [of _ ?r], rule exI [of _ ?e], rule exI [of _ f])
    using l ro f by simp
qed

section \<open>End to end\<close>

lemma date_with_signal: "date (with_signal b f s) = date b"
  by (simp add: with_signal_def bar.extend_def)

lemma opn_with_signal: "opn (with_signal b f s) = opn b"
  by (simp add: with_signal_def bar.extend_def)

lemma loop_step_noop:
  assumes "loop_upto db df q tz k = Inr st" and "k + 1 < length df"
    and "\<not> (signal_prev df ! k = 0 \<and> signal (df ! k) = 1 \<and> position st = None)"
    and "\<not> (signal_prev df ! k = 1 \<and> signal (df ! k) = 0 \<and> position st \<noteq> None)"
  shows "loop_upto db df q tz (Suc k) = Inr st"
  using assms(1) loop_body_noop [OF assms(2,3,4), of db q tz] by (simp add: loop_upto_Suc)

lemma loop_step_entry:
  assumes "loop_upto db df q tz k = Inr st" and "k + 1 < length df"
    and "signal_prev df ! k = 0" and "signal (df ! k) = 1" and "position st = None"
    and "make_dt db (date (df ! (k + 1))) 9 15 tz = Inr ts"
  shows "loop_upto db df q tz (Suc k) =
           Inr (st\<lparr>position := Some \<lparr>oe_entry_dt = ts, oe_entry_price = opn (df ! (k + 1)),
                                     oe_qty = q\<rparr>\<rparr>)"
  using assms(1) loop_body_entry [OF assms(2,3,4,5,6), of q] by (simp add: loop_upto_Suc)

text \<open>
  Claim C6. For every series of six bars with closes 10, 10, 10, 12, 12, 8 and the
  windows 2 and 3, the means taken in exact arithmetic (10, 10, 11, 12, 10 from bar 1
  and 10, 32/3, 34/3, 32/3 from bar 2; where they differ they differ by 1/3 at least),
  the signals are 0, 0, 0, 1, 1, 0: the first 1 is at index 3. The
  simulator opens one position at the open of bar 4, stamped with the date of bar 4,
  and the fall of the signal on bar 5, the last bar, is never processed: the order
  list and the ledger hold exactly one record, with the four exit fields empty.
\<close>

theorem end_to_end_scenario:
  assumes "map close bars = [10, 10, 10, 12, 12, 8]"
  shows "map signal (compute_sma_signals exact_mean bars 2 3) = [0, 0, 0, 1, 1, 0] \<and>
    (\<exists>ts. make_dt db (date (bars ! 4)) 9 15 tz = Inr ts \<and>
       raw_orders db (compute_sma_signals exact_mean bars 2 3) q tz =
         Inr [open_record \<lparr>oe_entry_dt = ts, oe_entry_price = opn (bars ! 4), oe_qty = q\<rparr>] \<and>
       generate_orders db (compute_sma_signals exact_mean bars 2 3) q tz =
         Inr \<lparr>columns = OUTPUT_COLS,
              rows = [[CStr (strftime ts), CFloat (opn (bars ! 4)), CInt q, CNaN, CStr '''',
                       CStr '''', CStr '''']]\<rparr>)"
proof -
  let ?s = "compute_sma_signals exact_mean bars 2 3"
  have "length (map close bars) = 6" unfolding assms by simp
  then have len: "length bars = 6" by simp
  then have slen: "length ?s = 6" by (simp add: length_compute_sma_signals)
  have nth: "?s ! i = with_signal (bars ! i) (rolling_mean_at exact_mean 2 (map close bars) i)
                        (rolling_mean_at exact_mean 3 (map close bars) i)" if "i < 6" for i
    using that len by (simp add: compute_sma_signals_nth)
  have s0: "signal (?s ! 0) = 0"
    by (simp add: nth signal_with_signal rolling_mean_at_def exact_mean_def astype_int_def)
  have s1: "signal (?s ! 1) = 0"
    by (simp add: nth signal_with_signal rolling_mean_at_def exact_mean_def astype_int_def)
  have s2: "signal (?s ! 2) = 0"
    by (simp add: nth signal_with_signal rolling_mean_at_def exact_mean_def astype_int_def assms)
  have s3: "signal (?s ! 3) = 1"
    by (simp add: nth signal_with_signal rolling_mean_at_def exact_mean_def astype_int_def assms)
  have s4: "signal (?s ! 4) = 1"
    by (simp add: nth signal_with_signal rolling_mean_at_def exact_mean_def astype_int_def assms)
  have s5: "signal (?s ! 5) = 0"
    by (simp add: nth signal_with_signal rolling_mean_at_def exact_mean_def astype_int_def assms)
  have sigs: "map signal ?s = [0, 0, 0, 1, 1, 0]"
  proof (rule nth_equalityI)
    show "length (map signal ?s) = length [0, 0, 0, 1, 1, 0 :: int]" using slen by simp
    fix i assume "i < length (map signal ?s)"
    then have "i < 6" using slen by simp
    then consider "i = 0" | "i = 1" | "i = 2" | "i = 3" | "i = 4" | "i = 5" by linarith
    then show "map signal ?s ! i = [0, 0, 0, 1, 1, 0] ! i"
      using slen s0 s1 s2 s3 s4 s5 by cases simp_all
  qed
  have d4: "date (?s ! 4) = date (bars ! 4)" and o4: "opn (?s ! 4) = opn (bars ! 4)"
    by (simp_all add: nth date_with_signal opn_with_signal)
  obtain ts where ts: "make_dt db (date (bars ! 4)) 9 15 tz = Inr ts"
    by (simp add: make_dt_9_15)
  let ?e = "\<lparr>oe_entry_dt = ts, oe_entry_price = opn (bars ! 4), oe_qty = q\<rparr>"
  have p0: "signal_prev ?s ! 0 = 0" and p1: "signal_prev ?s ! 1 = 0"
    and p2: "signal_prev ?s ! 2 = 0" and p3: "signal_prev ?s ! 3 = 0"
    and p4: "signal_prev ?s ! 4 = 1"
    using slen s0 s1 s2 s3 by (simp_all add: signal_prev_nth)
  have pn: "position init_state = None" by (simp add: init_state_def)
  have l0: "loop_upto db ?s q tz 0 = Inr init_state" by (rule loop_upto_0)
  have l1: "loop_upto db ?s q tz (Suc 0) = Inr init_state"
    using s0 slen pn by (intro loop_step_noop [OF l0]) simp_all
  have l2: "loop_upto db ?s q tz (Suc (Suc 0)) = Inr init_state"
    using s1 p1 slen pn by (intro loop_step_noop [OF l1]) simp_all
  have l3: "loop_upto db ?s q tz (Suc (Suc (Suc 0))) = Inr init_state"
    using s2 p2 slen pn by (intro loop_step_noop [OF l2]) (simp_all add: numeral_2_eq_2)
  have t3: "make_dt db (date (?s ! (Suc (Suc (Suc 0)) + 1))) 9 15 tz = Inr ts"
    using ts d4 by (simp add: eval_nat_numeral)
  have c3: "signal_prev ?s ! Suc (Suc (Suc 0)) = 0" "signal (?s ! Suc (Suc (Suc 0))) = 1"
    using p3 s3 by (simp_all add: eval_nat_numeral)
  have k3: "Suc (Suc (Suc 0)) + 1 < length ?s" using slen by simp
  have l4: "loop_upto db ?s q tz (Suc (Suc (Suc (Suc 0)))) =
              Inr \<lparr>orders = [], position = Some ?e\<rparr>"
    using loop_step_entry [OF l3 k3 c3 pn t3] o4
    by (simp add: init_state_def eval_nat_numeral)
  have c4: "signal_prev ?s ! Suc (Suc (Suc (Suc 0))) = 1"
    "signal (?s ! Suc (Suc (Suc (Suc 0)))) = 1"
    using p4 s4 by (simp_all add: eval_nat_numeral)
  have l5: "loop_upto db ?s q tz (Suc (Suc (Suc (Suc (Suc 0))))) =
              Inr \<lparr>orders = [], position = Some ?e\<rparr>"
    using c4 slen by (intro loop_step_noop [OF l4]) simp_all
  have "length ?s - 1 = Suc (Suc (Suc (Suc (Suc 0))))" using slen by simp
  with l5 have ro: "raw_orders db ?s q tz = Inr [open_record ?e]"
    by (simp add: raw_orders_def)
  have nm: "\<not> mixed_tz (map entry_dt [open_record ?e])"
    "\<not> mixed_tz (map exit_dt [open_record ?e])"
    by (auto simp: mixed_tz_def)
  have go: "generate_orders db ?s q tz =
         Inr \<lparr>columns = OUTPUT_COLS,
              rows = [[CStr (strftime ts), CFloat (opn (bars ! 4)), CInt q, CNaN, CStr '''',
                       CStr '''', CStr '''']]\<rparr>"
    unfolding generate_orders_rows [OF ro] using nm
    by (simp add: ledger_row_def)
  from sigs ts ro go show ?thesis by blast
qed

theorem end_to_end_scenario_witness:
  "map close bars6 = [10, 10, 10, 12, 12, 8] \<and>
   map signal (compute_sma_signals exact_mean bars6 2 3) = [0, 0, 0, 1, 1, 0] \<and>
   generate_orders db_std (compute_sma_signals exact_mean bars6 2 3) 5 ''Asia/Kolkata'' =
     Inr \<lparr>columns = OUTPUT_COLS,
          rows = [[CStr ''2024-01-05 09:15:00'', CFloat 12, CInt 5, CNaN, CStr '''',
                   CStr '''', CStr '''']]\<rparr>"
proof -
  have c: "map close bars6 = [10, 10, 10, 12, 12, 8]" by (simp add: bars6_def mk_bar_def)
  have m: "make_dt db_std (date (bars6 ! 4)) 9 15 ''Asia/Kolkata'' =
      Inr \<lparr>ts_year = 2024, ts_month = 1, ts_day = 5, ts_hour = 9, ts_minute = 15,
           ts_tz = Some ''Asia/Kolkata''\<rparr>"
    by code_simp
  have f: "strftime \<lparr>ts_year = 2024, ts_month = 1, ts_day = 5, ts_hour = 9, ts_minute = 15,
           ts_tz = Some ''Asia/Kolkata''\<rparr> = ''2024-01-05 09:15:00''"
    by code_simp
  have o: "opn (bars6 ! 4) = 12" by code_simp
  from end_to_end_scenario [OF c, of db_std "''Asia/Kolkata''" 5] m f o c
  show ?thesis by auto
qed

section \<open>The layout of the ledger\<close>

text \<open>
  Claim C8. The ledger is to hold every entry and exit timestamp as the string
  \<^verbatim>\<open>YYYY-MM-DD HH:MM:SS\<close> of its wall-clock time, without zone. On the series \<open>apia_df\<close>
  in the zone Pacific/Apia the code does not: the entry of 2011-12-30 cannot be
  localized and stays naive, the entry of 2012-01-04 is localized, the column
  \<^verbatim>\<open>entry_dt\<close> mixes the two, \<^verbatim>\<open>pd.to_datetime\<close> raises, the exception is swallowed on
  line 105, and the column keeps its two timestamps, one naive and one with its zone,
  where the comment of line 97 announces formatted strings. The column \<^verbatim>\<open>exit_dt\<close>,
  which does not mix, is formatted, and so are both columns of the same series under
  a zone without the gap.
\<close>

theorem ledger_mixed_zone_unformatted:
  "generate_orders db_apia apia_df 1 ''Pacific/Apia'' =
     Inr \<lparr>columns = [''entry_dt'', ''entry_price'', ''qty'', ''exit_dt'', ''exit_price'',
                     ''pnl'', ''bars_held''],
          rows =
            [[CTs \<lparr>ts_year = 2011, ts_month = 12, ts_day = 30, ts_hour = 9, ts_minute = 15,
                    ts_tz = None\<rparr>,
              CFloat 11, CInt 1, CStr ''2012-01-03 09:15:00'', CFloat 12, CFloat 1, CInt 4],
             [CTs \<lparr>ts_year = 2012, ts_month = 1, ts_day = 4, ts_hour = 9, ts_minute = 15,
                    ts_tz = Some ''Pacific/Apia''\<rparr>,
              CFloat 13, CInt 1, CNaN, CStr '''', CStr '''', CStr '''']]\<rparr> \<and>
   generate_orders db_std apia_df 1 ''UTC'' =
     Inr \<lparr>columns = [''entry_dt'', ''entry_price'', ''qty'', ''exit_dt'', ''exit_price'',
                     ''pnl'', ''bars_held''],
          rows =
            [[CStr ''2011-12-30 09:15:00'', CFloat 11, CInt 1, CStr ''2012-01-03 09:15:00'',
              CFloat 12, CFloat 1, CInt 4],
             [CStr ''2012-01-04 09:15:00'', CFloat 13, CInt 1, CNaN, CStr '''', CStr '''',
              CStr '''']]\<rparr>"
  by (rule conjI; code_simp)

section \<open>Building timestamps\<close>

text \<open>
  Claim C10. For every date, every execution time (an hour in 0..23 and a minute in
  0..59) and every zone name, \<^verbatim>\<open>_make_dt\<close> raises nothing: it returns the timestamp of
  that date, hour and minute, localized to the zone when \<^verbatim>\<open>tz_localize\<close> succeeds and
  naive whenever \<^verbatim>\<open>tz_localize\<close> raises, whatever the exception; it raises for every
  time when the zone name is unknown. With an unknown zone name \<^verbatim>\<open>generate_orders\<close>
  therefore still returns its orders, every timestamp in them naive.
\<close>

theorem make_dt_never_raises:
  assumes "0 \<le> hh" and "hh < 24" and "0 \<le> mm" and "mm < 60"
  shows "(\<exists>ts naive.
           naive = \<lparr>ts_year = year d, ts_month = month d, ts_day = day d, ts_hour = hh,
                    ts_minute = mm, ts_tz = None\<rparr> \<and>
           Timestamp (year d) (month d) (day d) hh mm = Inr naive \<and>
           make_dt db d hh mm tz = Inr ts \<and>
           (\<forall>t. tz_localize db naive tz = Inr t \<longrightarrow> ts = t \<and> t = naive\<lparr>ts_tz := Some tz\<rparr>) \<and>
           (\<forall>e. tz_localize db naive tz = Inl e \<longrightarrow> ts = naive) \<and>
           ((\<forall>t. db tz t = None) \<longrightarrow> tz_localize db naive tz = Inl TzError \<and> ts = naive))
       \<and> ((\<forall>t. db tz t = None) \<longrightarrow>
            (\<exists>os. raw_orders db df q tz = Inr os \<and>
                  (\<forall>r \<in> set os. \<exists>t. entry_dt r = CTs t \<and> ts_tz t = None) \<and>
                  (\<forall>r \<in> set os. exit_dt r = CStr '''' \<or>
                                 (\<exists>t. exit_dt r = CTs t \<and> ts_tz t = None))))"
proof -
  have A: "\<exists>ts naive.
           naive = \<lparr>ts_year = year d, ts_month = month d, ts_day = day d, ts_hour = hh,
                    ts_minute = mm, ts_tz = None\<rparr> \<and>
           Timestamp (year d) (month d) (day d) hh mm = Inr naive \<and>
           make_dt db d hh mm tz = Inr ts \<and>
           (\<forall>t. tz_localize db naive tz = Inr t \<longrightarrow> ts = t \<and> t = naive\<lparr>ts_tz := Some tz\<rparr>) \<and>
           (\<forall>e. tz_localize db naive tz = Inl e \<longrightarrow> ts = naive) \<and>
           ((\<forall>t. db tz t = None) \<longrightarrow> tz_localize db naive tz = Inl TzError \<and> ts = naive)"
    using assms by (auto simp: make_dt_def Timestamp_def tz_localize_def)
  have B: "(\<forall>t. db tz t = None) \<longrightarrow>
            (\<exists>os. raw_orders db df q tz = Inr os \<and>
                  (\<forall>r \<in> set os. \<exists>t. entry_dt r = CTs t \<and> ts_tz t = None) \<and>
                  (\<forall>r \<in> set os. exit_dt r = CStr '''' \<or>
                                 (\<exists>t. exit_dt r = CTs t \<and> ts_tz t = None)))"
  proof
    assume u: "\<forall>t. db tz t = None"
    obtain os where ro: "raw_orders db df q tz = Inr os"
      using raw_orders_total by blast
    have naive: "ts_tz t = None" if "make_dt db (date b) 9 15 tz = Inr t" for b t
      using that u by (auto simp: make_dt_9_15)
    have E: "\<forall>r \<in> set os. \<exists>t. entry_dt r = CTs t \<and> ts_tz t = None"
      using raw_orders_stamps(1) [OF ro] naive by blast
    have X: "\<forall>r \<in> set os. exit_dt r = CStr '''' \<or> (\<exists>t. exit_dt r = CTs t \<and> ts_tz t = None)"
      using raw_orders_stamps(2) [OF ro] naive by blast
    from ro E X show "\<exists>os. raw_orders db df q tz = Inr os \<and>
                  (\<forall>r \<in> set os. \<exists>t. entry_dt r = CTs t \<and> ts_tz t = None) \<and>
                  (\<forall>r \<in> set os. exit_dt r = CStr '''' \<or>
                                 (\<exists>t. exit_dt r = CTs t \<and> ts_tz t = None))"
      by blast
  qed
  show ?thesis by (rule conjI [OF A B])
qed

text \<open>The zone database \<open>db_std\<close> does not know the zone name Mars/Olympus.\<close>

theorem make_dt_never_raises_witness:
  "(0::int) \<le> 9 \<and> (9::int) < 24 \<and> (0::int) \<le> 15 \<and> (15::int) < 60 \<and>
   make_dt db_std (mk_date 2024 1 4) 9 15 ''Mars/Olympus'' =
     Inr \<lparr>ts_year = 2024, ts_month = 1, ts_day = 4, ts_hour = 9, ts_minute = 15,
          ts_tz = None\<rparr> \<and>
   make_dt db_std (mk_date 2024 1 4) 9 15 ''UTC'' =
     Inr \<lparr>ts_year = 2024, ts_month = 1, ts_day = 4, ts_hour = 9, ts_minute = 15,
          ts_tz = Some ''UTC''\<rparr> \<and>
   map entry_dt (projr (raw_orders db_std sig7 5 ''Mars/Olympus'')) =
     [CTs \<lparr>ts_year = 2024, ts_month = 1, ts_day = 4, ts_hour = 9, ts_minute = 15,
           ts_tz = None\<rparr>] \<and>
   map exit_dt (projr (raw_orders db_std sig7 5 ''Mars/Olympus'')) =
     [CTs \<lparr>ts_year = 2024, ts_month = 1, ts_day = 8, ts_hour = 9, ts_minute = 15,
           ts_tz = None\<rparr>]"
proof -
  have h: "(0::int) \<le> 9" "(9::int) < 24" "(0::int) \<le> 15" "(15::int) < 60" by simp_all
  have u: "\<forall>t. db_std ''Mars/Olympus'' t = None" by (simp add: db_std_def)
  have k: "tz_localize db_std
             \<lparr>ts_year = year (mk_date 2024 1 4), ts_month = month (mk_date 2024 1 4),
              ts_day = day (mk_date 2024 1 4), ts_hour = 9, ts_minute = 15, ts_tz = None\<rparr>
             ''UTC'' =
           Inr \<lparr>ts_year = 2024, ts_month = 1, ts_day = 4, ts_hour = 9, ts_minute = 15,
                ts_tz = Some ''UTC''\<rparr>"
    by (simp add: tz_localize_def db_std_def mk_date_def)
  note m = make_dt_never_raises [OF h, where d = "mk_date 2024 1 4" and db = db_std
      and tz = "''Mars/Olympus''" and df = sig7 and q = 5]
  note n = make_dt_never_raises [OF h, where d = "mk_date 2024 1 4" and db = db_std
      and tz = "''UTC''" and df = sig7 and q = 5]
  from m u have a: "make_dt db_std (mk_date 2024 1 4) 9 15 ''Mars/Olympus'' =
     Inr \<lparr>ts_year = 2024, ts_month = 1, ts_day = 4, ts_hour = 9, ts_minute = 15,
          ts_tz = None\<rparr>"
    by (auto simp: mk_date_def)
  from n k have b: "make_dt db_std (mk_date 2024 1 4) 9 15 ''UTC'' =
     Inr \<lparr>ts_year = 2024, ts_month = 1, ts_day = 4, ts_hour = 9, ts_minute = 15,
          ts_tz = Some ''UTC''\<rparr>"
    by auto
  have c: "map entry_dt (projr (raw_orders db_std sig7 5 ''Mars/Olympus'')) =
     [CTs \<lparr>ts_year = 2024, ts_month = 1, ts_day = 4, ts_hour = 9, ts_minute = 15,
           ts_tz = None\<rparr>]"
    and d: "map exit_dt (projr (raw_orders db_std sig7 5 ''Mars/Olympus'')) =
     [CTs \<lparr>ts_year = 2024, ts_month = 1, ts_day = 8, ts_hour = 9, ts_minute = 15,
           ts_tz = None\<rparr>]"
    by code_simp+
  show ?thesis by (intro conjI h a b c d)
qed

end
